theory Spec2Isabelle
  imports Complex_Main "HOL-Library.Word" "HOL-Library.Signed_Division" "HOL-Library.AList"
begin

unbundle bit_operations_syntax

section \<open>Colours (Go's image/color as used by the repository)\<close>

text \<open>
  Every frame of the repository is an \<^verbatim>\<open>*image.RGBA\<close>, whose pixels are
  \<^verbatim>\<open>color.RGBA\<close> values (four 8-bit channels). \<^verbatim>\<open>blendColors\<close> returns a
  \<^verbatim>\<open>color.RGBA64\<close> (four 16-bit channels). The method \<^verbatim>\<open>RGBA()\<close> of either
  kind yields four \<^verbatim>\<open>uint32\<close> values on the scale 0..65535.
\<close>

type_synonym uint8 = "8 word"
type_synonym uint16 = "16 word"
type_synonym uint32 = "32 word"

datatype Color =
    RGBA uint8 uint8 uint8 uint8
  | RGBA64 uint16 uint16 uint16 uint16

text \<open>\<^verbatim>\<open>r = uint32(c.R); r |= r << 8\<close> for \<^verbatim>\<open>color.RGBA\<close>; the field itself for \<^verbatim>\<open>color.RGBA64\<close>.\<close>

definition widen8 :: "uint8 \<Rightarrow> uint32" where
  "widen8 c = (ucast c :: uint32) OR push_bit 8 (ucast c :: uint32)"

fun Color_RGBA :: "Color \<Rightarrow> uint32 \<times> uint32 \<times> uint32 \<times> uint32" where
  "Color_RGBA (RGBA r g b a) = (widen8 r, widen8 g, widen8 b, widen8 a)"
| "Color_RGBA (RGBA64 r g b a) = (ucast r, ucast g, ucast b, ucast a)"

text \<open>\<^verbatim>\<open>color.RGBAModel.Convert\<close>: a \<^verbatim>\<open>color.RGBA\<close> is returned as it is, anything else
  is narrowed channel by channel with \<^verbatim>\<open>uint8(v >> 8)\<close>.\<close>

fun rgbaModel :: "Color \<Rightarrow> uint8 \<times> uint8 \<times> uint8 \<times> uint8" where
  "rgbaModel (RGBA r g b a) = (r, g, b, a)"
| "rgbaModel c =
     (case Color_RGBA c of (r, g, b, a) \<Rightarrow>
        (ucast (drop_bit 8 r), ucast (drop_bit 8 g), ucast (drop_bit 8 b), ucast (drop_bit 8 a)))"

section \<open>Blend modes (pkg/compositing/compositing.go)\<close>

text \<open>\<^verbatim>\<open>type CompositeMode int\<close> with the constants numbered by \<^verbatim>\<open>iota\<close>; a value outside
  0..5 reaches the \<^verbatim>\<open>default\<close> branch of \<^verbatim>\<open>blendColors\<close>.\<close>

type_synonym CompositeMode = int

definition Overlay :: CompositeMode where "Overlay = 0"
definition Add :: CompositeMode where "Add = 1"
definition Multiply :: CompositeMode where "Multiply = 2"
definition Screen :: CompositeMode where "Screen = 3"
definition Darken :: CompositeMode where "Darken = 4"
definition Lighten :: CompositeMode where "Lighten = 5"

definition blendOverlay :: "uint32 \<Rightarrow> uint32 \<Rightarrow> uint32" where
  "blendOverlay base overlay =
     (if base < 32768 then (2 * base * overlay) div 65535
      else 65535 - (2 * (65535 - base) * (65535 - overlay)) div 65535)"

definition blendScreen :: "uint32 \<Rightarrow> uint32 \<Rightarrow> uint32" where
  "blendScreen base overlay = 65535 - ((65535 - base) * (65535 - overlay)) div 65535"

definition clamp :: "uint32 \<Rightarrow> uint32" where
  "clamp v = (if v > 65535 then 65535 else v)"

definition min_u32 :: "uint32 \<Rightarrow> uint32 \<Rightarrow> uint32" where
  "min_u32 a b = (if a < b then a else b)"

definition max_u32 :: "uint32 \<Rightarrow> uint32 \<Rightarrow> uint32" where
  "max_u32 a b = (if a > b then a else b)"

text \<open>One channel of \<^verbatim>\<open>blendColors\<close>: the \<^verbatim>\<open>switch\<close> on the mode, applied to one pair of
  channel values.\<close>

definition blendChannel :: "CompositeMode \<Rightarrow> uint32 \<Rightarrow> uint32 \<Rightarrow> uint32" where
  "blendChannel mode c1 c2 =
     (if mode = Overlay then blendOverlay c1 c2
      else if mode = Add then clamp (c1 + c2)
      else if mode = Multiply then (c1 * c2) div 65535
      else if mode = Screen then blendScreen c1 c2
      else if mode = Darken then min_u32 c1 c2
      else if mode = Lighten then max_u32 c1 c2
      else c2)"

definition blendColors :: "Color \<Rightarrow> Color \<Rightarrow> CompositeMode \<Rightarrow> Color" where
  "blendColors base overlay mode =
     (case Color_RGBA base of (r1, g1, b1, _) \<Rightarrow>
      case Color_RGBA overlay of (r2, g2, b2, a2) \<Rightarrow>
        RGBA64 (ucast (blendChannel mode r1 r2))
               (ucast (blendChannel mode g1 g2))
               (ucast (blendChannel mode b1 b2))
               (ucast a2))"


subsection \<open>The blend formulas in the words of the specification\<close>

text \<open>The specification states the blend modes on channel values normalised to the scale
  0..1. \<open>spec_normalise\<close> maps a channel value of the integer scale 0..65535 to that scale, and
  \<open>spec_blend\<close> is the table of formulas as the specification writes it. They are reference
  definitions to compare \<open>blendChannel\<close> with; the code does not contain them.\<close>

definition spec_normalise :: "uint32 \<Rightarrow> rat" where
  "spec_normalise c = of_int (uint c) / 65535"

definition spec_clamp :: "rat \<Rightarrow> rat" where
  "spec_clamp x = max 0 (min 1 x)"

definition spec_blend :: "CompositeMode \<Rightarrow> rat \<Rightarrow> rat \<Rightarrow> rat" where
  "spec_blend mode base ovl =
     (if mode = Overlay then
        (if base < 1 / 2 then 2 * base * ovl else 1 - 2 * (1 - base) * (1 - ovl))
      else if mode = Add then spec_clamp (base + ovl)
      else if mode = Multiply then base * ovl
      else if mode = Screen then 1 - (1 - base) * (1 - ovl)
      else if mode = Darken then min base ovl
      else max base ovl)"

text \<open>The alpha channel of a colour on the 16-bit scale, as \<^verbatim>\<open>RGBA()\<close> returns it.\<close>

definition alpha_of :: "Color \<Rightarrow> uint32" where
  "alpha_of c = (case Color_RGBA c of (_, _, _, a) \<Rightarrow> a)"

text \<open>The specification's formula for a mode, applied to two channel values of the integer
  scale and scaled back to it (a rational number; the code's result is an integer).\<close>

definition spec_on_integer_scale :: "CompositeMode \<Rightarrow> uint32 \<Rightarrow> uint32 \<Rightarrow> rat" where
  "spec_on_integer_scale mode c1 c2 =
     65535 * spec_blend mode (spec_normalise c1) (spec_normalise c2)"

section \<open>Go integers, errors and images\<close>

text \<open>Go's \<^verbatim>\<open>int\<close> is a 64-bit two's-complement integer on the platforms the program runs
  on. It is modelled by \<open>int\<close>; \<open>wrap64\<close> is the wrap-around of an arithmetic result and is
  written where a result can leave the range. \<^verbatim>\<open>a % b\<close> truncates towards zero (\<open>smod\<close>).
  A \<^verbatim>\<open>float64\<close> is modelled by a rational number and arithmetic on it by exact rational
  arithmetic (no rounding, no NaN or infinity); the conversion \<^verbatim>\<open>int(f)\<close> truncates towards
  zero.\<close>

definition wrap64 :: "int \<Rightarrow> int" where
  "wrap64 k = (k + 2 ^ 63) mod 2 ^ 64 - 2 ^ 63"

definition in_int64 :: "int \<Rightarrow> bool" where
  "in_int64 k = (- (2 ^ 63) \<le> k \<and> k < 2 ^ 63)"

definition go_int :: "rat \<Rightarrow> int" where
  "go_int f = (if 0 \<le> f then \<lfloor>f\<rfloor> else \<lceil>f\<rceil>)"

text \<open>The errors the modelled functions return. The program builds them with
  \<^verbatim>\<open>fmt.Errorf\<close> or takes them from package \<^verbatim>\<open>core\<close>; each constructor stands for one
  message or one variable. \<open>Panic\<close> is a run-time panic (it unwinds the call).\<close>

datatype io_error = EOF | ErrUnexpectedEOF

datatype error =
    Panic
  | ReaderClosed
  | VideoNotOpened
  | TimeBeyondVideoLength
  | StdoutPipeFailed
  | StartFFmpegFailed
  | ReadPixelDataFailed io_error
  | FFmpegExitedAbnormally
  | WriterClosed
  | WriterNotOpened
  | FrameSizeMismatch int int int int
  | FFmpegProcessExited
  | WriteFrameDataFailed
  | WriteFrameDataFailedProcessExited
  | ClipClosed
  | NoClipsToComposite
  | GetBaseFrameFailed error
  | StartProcessFailed
  | ProcessNotFound int
  | FileNotFound
  | GetVideoInfoFailed
  | ErrInvalidTimeRange
  | ErrInvalidSpeedFactor

text \<open>\<^verbatim>\<open>image.Point\<close>, \<^verbatim>\<open>image.Rectangle\<close> and \<^verbatim>\<open>image.Rect\<close>, which orders its corners.\<close>

record Point =
  X :: int
  Y :: int

record Rectangle =
  Rect_Min :: Point
  Rect_Max :: Point

definition Rect :: "int \<Rightarrow> int \<Rightarrow> int \<Rightarrow> int \<Rightarrow> Rectangle" where
  "Rect x0 y0 x1 y1 =
     (let (x0, x1) = (if x0 > x1 then (x1, x0) else (x0, x1));
          (y0, y1) = (if y0 > y1 then (y1, y0) else (y0, y1))
      in \<lparr>Rect_Min = \<lparr>X = x0, Y = y0\<rparr>, Rect_Max = \<lparr>X = x1, Y = y1\<rparr>\<rparr>)"

definition Dx :: "Rectangle \<Rightarrow> int" where
  "Dx r = wrap64 (X (Rect_Max r) - X (Rect_Min r))"

definition Dy :: "Rectangle \<Rightarrow> int" where
  "Dy r = wrap64 (Y (Rect_Max r) - Y (Rect_Min r))"

definition Point_In :: "int \<Rightarrow> int \<Rightarrow> Rectangle \<Rightarrow> bool" where
  "Point_In x y r =
     (X (Rect_Min r) \<le> x \<and> x < X (Rect_Max r) \<and> Y (Rect_Min r) \<le> y \<and> y < Y (Rect_Max r))"

text \<open>\<^verbatim>\<open>mul3NonNeg\<close> of package \<^verbatim>\<open>image\<close>: the product of three sizes, or \<open>-1\<close> when an
  argument is negative or the product does not fit.\<close>

definition mul3NonNeg :: "int \<Rightarrow> int \<Rightarrow> int \<Rightarrow> int" where
  "mul3NonNeg x y z =
     (if x < 0 \<or> y < 0 \<or> z < 0 then - 1
      else if x * y \<ge> 2 ^ 64 then - 1
      else if x * y * z \<ge> 2 ^ 64 then - 1
      else if x * y * z \<ge> 2 ^ 63 then - 1
      else x * y * z)"

text \<open>An \<^verbatim>\<open>*image.RGBA\<close>. Its pixel buffer is modelled by the pixel it holds at each point
  (four 8-bit channels); the byte layout of \<^verbatim>\<open>Pix\<close> and \<^verbatim>\<open>Stride\<close> is not modelled.
  \<^verbatim>\<open>NewRGBA\<close> panics when the buffer length is negative or does not fit an \<^verbatim>\<open>int\<close>, and
  otherwise returns an image of zero pixels; running out of memory is not modelled.
  \<^verbatim>\<open>At\<close> yields the zero colour outside the bounds and \<^verbatim>\<open>Set\<close> does nothing there.\<close>

type_synonym pixel = "uint8 \<times> uint8 \<times> uint8 \<times> uint8"

record RGBAImage =
  Pix :: "int \<Rightarrow> int \<Rightarrow> pixel"
  Bounds :: Rectangle

definition NewRGBA :: "Rectangle \<Rightarrow> error + RGBAImage" where
  "NewRGBA r =
     (if mul3NonNeg 4 (Dx r) (Dy r) < 0 then Inl Panic
      else Inr \<lparr>Pix = (\<lambda>x y. (0, 0, 0, 0)), Bounds = r\<rparr>)"

definition At :: "RGBAImage \<Rightarrow> int \<Rightarrow> int \<Rightarrow> Color" where
  "At p x y =
     (if \<not> Point_In x y (Bounds p) then RGBA 0 0 0 0
      else case Pix p x y of (r, g, b, a) \<Rightarrow> RGBA r g b a)"

definition Set_px :: "RGBAImage \<Rightarrow> int \<Rightarrow> int \<Rightarrow> Color \<Rightarrow> RGBAImage" where
  "Set_px p x y c =
     (if \<not> Point_In x y (Bounds p) then p
      else p\<lparr>Pix := (Pix p)(x := (Pix p x)(y := rgbaModel c))\<rparr>)"

text \<open>The loop \<^verbatim>\<open>for i := lo; i < hi; i++\<close> over an accumulated state.\<close>

definition for_range :: "int \<Rightarrow> int \<Rightarrow> (int \<Rightarrow> 's \<Rightarrow> 's) \<Rightarrow> 's \<Rightarrow> 's" where
  "for_range lo hi body s = fold body [lo..hi - 1] s"

section \<open>The Resize effect (pkg/effects/effects.go)\<close>

record ResizeEffect =
  re_name :: string
  re_width :: int
  re_height :: int

definition NewResizeEffect :: "int \<Rightarrow> int \<Rightarrow> ResizeEffect" where
  "NewResizeEffect width height =
     (let width = (if width smod 2 \<noteq> 0 then wrap64 (width + 1) else width);
          height = (if height smod 2 \<noteq> 0 then wrap64 (height + 1) else height)
      in \<lparr>re_name = ''resize'', re_width = width, re_height = height\<rparr>)"

text \<open>The source coordinate of nearest-neighbour sampling,
  \<^verbatim>\<open>int(float64(x) * float64(srcWidth) / float64(width))\<close>, clamped to \<^verbatim>\<open>srcWidth - 1\<close>.\<close>

definition nearest :: "int \<Rightarrow> int \<Rightarrow> int \<Rightarrow> int" where
  "nearest x srcWidth width =
     (let srcX = go_int (of_int x * of_int srcWidth / of_int width)
      in if srcX \<ge> srcWidth then srcWidth - 1 else srcX)"

definition ResizeEffect_ApplyToFrame :: "ResizeEffect \<Rightarrow> RGBAImage \<Rightarrow> error + RGBAImage" where
  "ResizeEffect_ApplyToFrame re frame =
     (let bounds = Bounds frame;
          srcWidth = Dx bounds;
          srcHeight = Dy bounds
      in case NewRGBA (Rect 0 0 (re_width re) (re_height re)) of
           Inl e \<Rightarrow> Inl e
         | Inr dst \<Rightarrow>
             Inr (for_range 0 (re_height re) (\<lambda>y.
                    for_range 0 (re_width re) (\<lambda>x dst.
                      Set_px dst x y
                        (At frame (nearest x srcWidth (re_width re))
                                  (nearest y srcHeight (re_height re))))) dst))"

section \<open>Compositing (pkg/compositing/compositing.go)\<close>

text \<open>Frames are shared by reference in the program. To speak about which buffer a write
  reaches, images live in a store: a list of images, an image's address being its index, and
  an allocation appending to it. A layer is a \<^verbatim>\<open>core.VideoClip\<close>; of a layer the model keeps
  its \<^verbatim>\<open>GetFrame\<close> method, taken as given: for a time it yields an error or the address
  of the frame it returns. An address outside the store stands for a nil image, whose use
  panics.\<close>

type_synonym addr = nat
type_synonym store = "RGBAImage list"
type_synonym VideoClip = "int \<Rightarrow> error + addr"

record Position =
  Pos_X :: rat
  Pos_Y :: rat
  Relative :: bool
  Center :: bool
  Scale :: rat
  Rotation :: rat
  Opacity :: rat

text \<open>The fields of \<^verbatim>\<open>CompositeVideoClip\<close> that \<^verbatim>\<open>GetFrame\<close> reads. A position is a pointer
  and may be nil (\<open>None\<close>).\<close>

record CompositeVideoClip =
  cvc_clips :: "VideoClip list"
  cvc_positions :: "Position option list"
  cvc_mode :: CompositeMode
  cvc_closed :: bool

text \<open>\<^verbatim>\<open>applyTransform\<close> scales a frame into a new image. It returns no error of its own;
  \<open>Inl\<close> is the panic of \<^verbatim>\<open>image.NewRGBA\<close>.\<close>

definition applyTransform :: "store \<Rightarrow> addr \<Rightarrow> Position \<Rightarrow> (error + addr) \<times> store" where
  "applyTransform h fa position =
     (if fa \<ge> length h then (Inl Panic, h)
      else
        let frame = h ! fa;
            bounds = Bounds frame;
            width = Dx bounds;
            height = Dy bounds;
            targetWidth = go_int (of_int width * Scale position);
            targetHeight = go_int (of_int height * Scale position)
        in case NewRGBA (Rect 0 0 targetWidth targetHeight) of
             Inl e \<Rightarrow> (Inl e, h)
           | Inr transformed \<Rightarrow>
               (Inr (length h),
                h @ [for_range 0 targetHeight (\<lambda>y.
                       for_range 0 targetWidth (\<lambda>x transformed.
                         Set_px transformed x y
                           (At frame (nearest x width targetWidth)
                                     (nearest y height targetHeight)))) transformed]))"

definition calculateOffset :: "Rectangle \<Rightarrow> Rectangle \<Rightarrow> Position \<Rightarrow> int \<times> int" where
  "calculateOffset baseBounds overlayBounds position =
     (let baseWidth = Dx baseBounds;
          baseHeight = Dy baseBounds;
          overlayWidth = Dx overlayBounds;
          overlayHeight = Dy overlayBounds
      in if Center position
         then ((baseWidth - overlayWidth) sdiv 2, (baseHeight - overlayHeight) sdiv 2)
         else (go_int (Pos_X position), go_int (Pos_Y position)))"

definition applyOpacity :: "Color \<Rightarrow> rat \<Rightarrow> Color" where
  "applyOpacity color opacity = color"

text \<open>\<^verbatim>\<open>compositeFrame\<close> blends the overlay image into the base image, in place: every write
  goes to the image at the address \<open>base\<close>. Both images are read from the store at each
  pixel, as the program reads them through its references.\<close>

definition compositePixel ::
  "addr \<Rightarrow> addr \<Rightarrow> Position \<Rightarrow> CompositeMode \<Rightarrow> int \<Rightarrow> int \<Rightarrow> Rectangle \<Rightarrow> int \<Rightarrow> int
     \<Rightarrow> store \<Rightarrow> store" where
  "compositePixel base overlay position mode offsetX offsetY baseBounds y x h =
     (let targetX = offsetX + x;
          targetY = offsetY + y
      in if targetX < X (Rect_Min baseBounds) \<or> targetX \<ge> X (Rect_Max baseBounds) \<or>
            targetY < Y (Rect_Min baseBounds) \<or> targetY \<ge> Y (Rect_Max baseBounds)
         then h
         else
           let baseColor = At (h ! base) targetX targetY;
               overlayColor = At (h ! overlay) x y;
               overlayColor = (if Opacity position < 1 then applyOpacity overlayColor (Opacity position)
                               else overlayColor);
               compositeColor = blendColors baseColor overlayColor mode
           in h[base := Set_px (h ! base) targetX targetY compositeColor])"

definition compositeFrame :: "store \<Rightarrow> addr \<Rightarrow> addr \<Rightarrow> Position \<Rightarrow> CompositeMode \<Rightarrow> store" where
  "compositeFrame h base overlay position mode =
     (let baseBounds = Bounds (h ! base);
          overlayBounds = Bounds (h ! overlay);
          (offsetX, offsetY) = calculateOffset baseBounds overlayBounds position
      in for_range (Y (Rect_Min overlayBounds)) (Y (Rect_Max overlayBounds)) (\<lambda>y.
           for_range (X (Rect_Min overlayBounds)) (X (Rect_Max overlayBounds))
             (compositePixel base overlay position mode offsetX offsetY baseBounds y)) h)"

text \<open>The loop of \<^verbatim>\<open>GetFrame\<close> over the layers \<open>1, 2, ...\<close>, given as the list of the indices
  still to visit. \<open>composite\<close> is the address of the canvas. A layer whose \<^verbatim>\<open>GetFrame\<close>
  fails is skipped. The result is \<open>Some Panic\<close> when the loop panics: the position index is
  out of range, the position is nil, the layer's frame is nil or \<^verbatim>\<open>applyTransform\<close> panics.\<close>

fun compositeLayers ::
  "CompositeVideoClip \<Rightarrow> int \<Rightarrow> addr \<Rightarrow> nat list \<Rightarrow> store \<Rightarrow> error option \<times> store" where
  "compositeLayers cvc t composite [] h = (None, h)"
| "compositeLayers cvc t composite (i # rest) h =
     (if i \<ge> length (cvc_positions cvc) then (Some Panic, h)
      else
        let clip = cvc_clips cvc ! i;
            position = cvc_positions cvc ! i
        in case clip t of
             Inl err \<Rightarrow> compositeLayers cvc t composite rest h
           | Inr clipFrame \<Rightarrow>
               (case position of
                  None \<Rightarrow> (Some Panic, h)
                | Some pos \<Rightarrow>
                    (case applyTransform h clipFrame pos of
                       (Inl e, h') \<Rightarrow> (Some e, h')
                     | (Inr transformedFrame, h') \<Rightarrow>
                         compositeLayers cvc t composite rest
                           (compositeFrame h' composite transformedFrame pos (cvc_mode cvc)))))"

definition CompositeVideoClip_GetFrame ::
  "CompositeVideoClip \<Rightarrow> int \<Rightarrow> store \<Rightarrow> (error + addr) \<times> store" where
  "CompositeVideoClip_GetFrame cvc t h =
     (if cvc_closed cvc then (Inl ClipClosed, h)
      else if length (cvc_clips cvc) = 0 then (Inl NoClipsToComposite, h)
      else (case (cvc_clips cvc ! 0) t of
        Inl err \<Rightarrow> (Inl (GetBaseFrameFailed err), h)
      | Inr baseFrame \<Rightarrow>
          (if baseFrame \<ge> length h then (Inl Panic, h)
           else (case NewRGBA (Bounds (h ! baseFrame)) of
             Inl e \<Rightarrow> (Inl e, h)
           | Inr fresh \<Rightarrow>
              (let bounds = Bounds (h ! baseFrame);
                   composite = length h;
                   h1 = h @ [for_range (Y (Rect_Min bounds)) (Y (Rect_Max bounds)) (\<lambda>y.
                               for_range (X (Rect_Min bounds)) (X (Rect_Max bounds)) (\<lambda>x c.
                                 Set_px c x y (At (h ! baseFrame) x y))) fresh]
               in (case compositeLayers cvc t composite [1..<length (cvc_clips cvc)] h1 of
                     (Some e, h2) \<Rightarrow> (Inl e, h2)
                   | (None, h2) \<Rightarrow> (Inr composite, h2)))))))"

section \<open>The process supervisor (pkg/ffmpeg/process.go)\<close>

text \<open>The result a process's \<^verbatim>\<open>Wait\<close> delivers: nil or an error.\<close>

datatype wait_result = ExitOK | ExitError

text \<open>A \<^verbatim>\<open>ManagedProcess\<close>. \<open>mp_done\<close> is the content of the channel \<^verbatim>\<open>done\<close>, which is
  buffered with capacity one: \<open>None\<close> while it is empty, \<open>Some r\<close> once the task that waits
  for the process has sent the result \<open>r\<close>; a receive empties it. \<open>mp_cancelled\<close> tells
  whether \<^verbatim>\<open>cancel\<close> has been called. The command handle, the start time and the cleanup
  callback are not modelled.\<close>

record ManagedProcess =
  mp_pid :: int
  mp_cancelled :: bool
  mp_done :: "wait_result option"












section \<open>The frame decoder (VideoReader, pkg/ffmpeg/process.go)\<close>

record VideoInfo =
  Duration :: rat
  Width :: int
  Height :: int
  FPS :: rat

record VideoReader =
  vr_filename :: string
  vr_info :: "VideoInfo option"
  vr_closed :: bool

text \<open>\<^verbatim>\<open>time.Duration\<close> is a count of nanoseconds; \<^verbatim>\<open>Seconds\<close> converts it.\<close>

definition Seconds :: "int \<Rightarrow> rat" where
  "Seconds d = of_int (d sdiv 1000000000) + of_int (d smod 1000000000) / 1000000000"

text \<open>What one run of the transcoder does, as the decoder sees it: whether creating the
  pipe or starting the process fails, the bytes the process writes to its standard output
  before the stream ends, and whether \<^verbatim>\<open>Wait\<close> reports an error.\<close>

record ffmpeg_run =
  pipe_fails :: bool
  start_fails :: bool
  stdout :: "uint8 list"
  wait_fails :: bool

text \<open>The effects of \<^verbatim>\<open>GetFrame\<close> on the operating system, in order: a process started to
  seek to a time of a file, a number of bytes taken from its output into the pixel buffer, a
  kill, a wait.\<close>

datatype os_event = Started rat string | ReadBytes nat | Killed | Waited

text \<open>\<^verbatim>\<open>io.ReadFull\<close> on a stream that holds the bytes \<open>stream\<close> and then ends.\<close>

definition ReadFull :: "uint8 list \<Rightarrow> nat \<Rightarrow> io_error + uint8 list" where
  "ReadFull stream n =
     (if n \<le> length stream then Inr (take n stream)
      else if stream = [] then Inl EOF
      else Inl ErrUnexpectedEOF)"

definition decodePixel :: "uint8 list \<Rightarrow> int \<Rightarrow> int \<Rightarrow> int \<Rightarrow> Color" where
  "decodePixel pixelData width x y =
     (let idx = nat ((y * width + x) * 3)
      in RGBA (pixelData ! idx) (pixelData ! (idx + 1)) (pixelData ! (idx + 2)) 255)"

definition VideoReader_GetFrame ::
  "VideoReader \<Rightarrow> int \<Rightarrow> ffmpeg_run \<Rightarrow> (error + RGBAImage) \<times> os_event list" where
  "VideoReader_GetFrame vr t run =
     (if vr_closed vr then (Inl ReaderClosed, [])
      else case vr_info vr of
        None \<Rightarrow> (Inl VideoNotOpened, [])
      | Some info \<Rightarrow>
          (let timestamp = Seconds t
           in if timestamp > Duration info then (Inl TimeBeyondVideoLength, [])
              else if pipe_fails run then (Inl StdoutPipeFailed, [])
              else if start_fails run then (Inl StartFFmpegFailed, [])
              else
                (let started = [Started timestamp (vr_filename vr)];
                     n = wrap64 (Width info * Height info * 3)
                 in if n < 0 then (Inl Panic, started)
                    else (case ReadFull (stdout run) (nat n) of
                      Inl e \<Rightarrow>
                        (Inl (ReadPixelDataFailed e),
                         started @ [ReadBytes (length (stdout run)), Killed])
                    | Inr pixelData \<Rightarrow>
                        (if wait_fails run
                         then (Inl FFmpegExitedAbnormally, started @ [ReadBytes (nat n), Waited])
                         else (case NewRGBA (Rect 0 0 (Width info) (Height info)) of
                           Inl e \<Rightarrow> (Inl e, started @ [ReadBytes (nat n), Waited])
                         | Inr img \<Rightarrow>
                             (Inr (for_range 0 (Height info) (\<lambda>y.
                                     for_range 0 (Width info) (\<lambda>x img.
                                       Set_px img x y
                                         (decodePixel pixelData (Width info) x y))) img),
                              started @ [ReadBytes (nat n), Waited])))))))"

section \<open>The frame encoder (VideoWriter, pkg/ffmpeg/writer.go)\<close>

text \<open>The fields of \<^verbatim>\<open>VideoWriter\<close> that \<^verbatim>\<open>WriteFrame\<close> reads or changes. \<open>vw_stdin\<close> is the
  input pipe of the transcoder, as the bytes written into it so far.\<close>

record VideoWriter =
  vw_width :: int
  vw_height :: int
  vw_closed :: bool
  vw_process :: "ManagedProcess option"
  vw_stdin :: "uint8 list"

text \<open>The outcome of \<^verbatim>\<open>stdin.Write\<close>: all bytes written, or an error after some of them.\<close>

datatype write_outcome = WriteOK | WriteFailed nat

text \<open>The three bytes of a pixel on the wire: \<^verbatim>\<open>byte(r >> 8)\<close>, \<^verbatim>\<open>byte(g >> 8)\<close>,
  \<^verbatim>\<open>byte(b >> 8)\<close> of the colour's \<^verbatim>\<open>RGBA()\<close>.\<close>

definition pixelBytes :: "Color \<Rightarrow> uint8 list" where
  "pixelBytes c =
     (case Color_RGBA c of (r, g, b, _) \<Rightarrow>
        [ucast (drop_bit 8 r), ucast (drop_bit 8 g), ucast (drop_bit 8 b)])"

text \<open>The conversion loop of \<^verbatim>\<open>WriteFrame\<close> fills the buffer from index 0 upwards, three
  bytes a pixel, row by row; the buffer it leaves is the concatenation of the pixels' bytes.\<close>

definition framePixelData :: "int \<Rightarrow> int \<Rightarrow> RGBAImage \<Rightarrow> uint8 list" where
  "framePixelData width height frame =
     concat (map (\<lambda>y. concat (map (\<lambda>x.
         pixelBytes (At frame (X (Rect_Min (Bounds frame)) + x) (Y (Rect_Min (Bounds frame)) + y)))
       [0..width - 1])) [0..height - 1])"

text \<open>\<^verbatim>\<open>WriteFrame\<close>. \<open>wr\<close> is the outcome of the write, and \<open>late\<close> what the second
  \<^verbatim>\<open>select\<close> finds on \<^verbatim>\<open>done\<close> after a failed write. The first \<^verbatim>\<open>select\<close> finds the
  content \<^verbatim>\<open>done\<close> has at the call and, receiving it, empties the channel.\<close>

definition VideoWriter_WriteFrame ::
  "VideoWriter \<Rightarrow> RGBAImage \<Rightarrow> write_outcome \<Rightarrow> wait_result option
     \<Rightarrow> error option \<times> VideoWriter" where
  "VideoWriter_WriteFrame vw frame wr late =
     (if vw_closed vw then (Some WriterClosed, vw)
      else case vw_process vw of
        None \<Rightarrow> (Some WriterNotOpened, vw)
      | Some process \<Rightarrow>
          (let bounds = Bounds frame
           in if Dx bounds \<noteq> vw_width vw \<or> Dy bounds \<noteq> vw_height vw
              then (Some (FrameSizeMismatch (vw_width vw) (vw_height vw) (Dx bounds) (Dy bounds)),
                    vw)
              else if wrap64 (vw_width vw * vw_height vw * 3) < 0 then (Some Panic, vw)
              else
                (let pixelData = framePixelData (vw_width vw) (vw_height vw) frame
                 in case mp_done process of
                      Some processErr \<Rightarrow>
                        (Some FFmpegProcessExited,
                         vw\<lparr>vw_process := Some (process\<lparr>mp_done := None\<rparr>)\<rparr>)
                    | None \<Rightarrow>
                        (case wr of
                           WriteOK \<Rightarrow> (None, vw\<lparr>vw_stdin := vw_stdin vw @ pixelData\<rparr>)
                         | WriteFailed k \<Rightarrow>
                             (let vw = vw\<lparr>vw_stdin := vw_stdin vw @ take k pixelData\<rparr>
                              in case late of
                                   Some processErr \<Rightarrow> (Some WriteFrameDataFailedProcessExited, vw)
                                 | None \<Rightarrow> (Some WriteFrameDataFailed, vw))))))"

section \<open>The clip over a video file (package video)\<close>








section \<open>Verified properties\<close>

subsection \<open>Blend arithmetic in 32-bit words\<close>

text \<open>Channel values come from \<^verbatim>\<open>Color.RGBA()\<close> and are at most 65535. Under that bound
  each 32-bit operation of the blend functions agrees with the same operation on unbounded
  integers: no product wraps and no subtraction goes below zero.\<close>

lemma u32_bound: "uint (x::uint32) \<le> 65535 \<Longrightarrow> uint (65535 - x) = 65535 - uint x"
  by (simp add: uint_sub_if' word_le_def)

lemma prod_bound:
  fixes a b :: int
  assumes "0 \<le> a" "a \<le> 32767" "0 \<le> b" "b \<le> 65535"
  shows "2 * a * b \<le> 4294770690"
proof -
  have "a * b \<le> 32767 * 65535" using assms by (intro mult_mono) auto
  then show ?thesis by simp
qed

lemma uint_mul3:
  fixes a b :: uint32
  assumes "uint a \<le> 32767" "uint b \<le> 65535"
  shows "uint (2 * a * b) = 2 * uint a * uint b"
proof -
  have nn: "0 \<le> uint a" "0 \<le> uint b" by simp_all
  have bd: "2 * uint a * uint b \<le> 4294770690" using prod_bound[OF nn(1) assms(1) nn(2) assms(2)] .
  have "uint (2 * a * b) = (2 * uint a * uint b) mod 2 ^ 32"
    by (simp add: uint_word_ariths mod_mult_right_eq mod_mult_left_eq mult.assoc)
  also have "\<dots> = 2 * uint a * uint b"
    using bd nn by (intro mod_pos_pos_trivial) auto
  finally show ?thesis .
qed

lemma uint_mul2:
  fixes a b :: uint32
  assumes "uint a \<le> 65535" "uint b \<le> 65535"
  shows "uint (a * b) = uint a * uint b"
proof -
  have "uint a * uint b \<le> 65535 * 65535" using assms by (intro mult_mono) auto
  then have bd: "uint a * uint b < 2 ^ 32" by simp
  have "uint (a * b) = (uint a * uint b) mod 2 ^ 32"
    by (simp add: uint_word_ariths)
  also have "\<dots> = uint a * uint b"
    using bd by (intro mod_pos_pos_trivial) auto
  finally show ?thesis .
qed

lemma uint_lt_32768: "((b::uint32) < 32768) = (uint b < 32768)"
  by (simp add: word_less_def)

lemma uint_gt_65535: "((v::uint32) > 65535) = (uint v > 65535)"
  by (simp add: word_less_def)

lemma uint_div_65535: "uint ((x::uint32) div 65535) = uint x div 65535"
  by (simp add: uint_div)

lemma uint_blendOverlay:
  fixes b t :: uint32
  assumes "uint b \<le> 65535" "uint t \<le> 65535"
  shows "uint (blendOverlay b t) =
     (if uint b < 32768 then (2 * uint b * uint t) div 65535
      else 65535 - (2 * (65535 - uint b) * (65535 - uint t)) div 65535)"
proof (cases "uint b < 32768")
  case True
  then have "uint b \<le> 32767" by simp
  then have "uint (2 * b * t) = 2 * uint b * uint t" using assms(2) by (rule uint_mul3)
  then show ?thesis using True by (simp add: blendOverlay_def uint_lt_32768 uint_div_65535)
next
  case False
  have sb: "uint (65535 - b) = 65535 - uint b" using assms(1) by (rule u32_bound)
  have st: "uint (65535 - t) = 65535 - uint t" using assms(2) by (rule u32_bound)
  have "uint (65535 - b) \<le> 32767" using False sb by simp
  moreover have "uint (65535 - t) \<le> 65535" using st by simp
  ultimately have m: "uint (2 * (65535 - b) * (65535 - t)) = 2 * (65535 - uint b) * (65535 - uint t)"
    using uint_mul3[of "65535 - b" "65535 - t"] sb st by simp
  have nn: "0 \<le> 65535 - uint b" "65535 - uint b \<le> 32767" "0 \<le> 65535 - uint t" "65535 - uint t \<le> 65535"
    using assms False by simp_all
  have "2 * (65535 - uint b) * (65535 - uint t) \<le> 4294770690"
    by (rule prod_bound[OF nn])
  then have q: "2 * (65535 - uint b) * (65535 - uint t) div 65535 \<le> 65535" by simp
  have q0: "0 \<le> 2 * (65535 - uint b) * (65535 - uint t) div 65535"
    using nn by (intro pos_imp_zdiv_nonneg_iff[THEN iffD2]) auto
  let ?d = "(2 * (65535 - b) * (65535 - t)) div 65535"
  have ud: "uint ?d = 2 * (65535 - uint b) * (65535 - uint t) div 65535"
    by (simp only: uint_div_65535 m)
  have "uint (65535 - ?d) = 65535 - uint ?d"
    by (rule u32_bound) (use ud q in simp)
  then show ?thesis using False ud by (simp add: blendOverlay_def uint_lt_32768)
qed

lemma uint_blendScreen:
  fixes b t :: uint32
  assumes "uint b \<le> 65535" "uint t \<le> 65535"
  shows "uint (blendScreen b t) = 65535 - ((65535 - uint b) * (65535 - uint t)) div 65535"
proof -
  have sb: "uint (65535 - b) = 65535 - uint b" using assms(1) by (rule u32_bound)
  have st: "uint (65535 - t) = 65535 - uint t" using assms(2) by (rule u32_bound)
  have m: "uint ((65535 - b) * (65535 - t)) = (65535 - uint b) * (65535 - uint t)"
    using uint_mul2[of "65535 - b" "65535 - t"] sb st by simp
  have "(65535 - uint b) * (65535 - uint t) \<le> 65535 * 65535"
    by (intro mult_mono) (use assms in auto)
  then have q: "(65535 - uint b) * (65535 - uint t) div 65535 \<le> 65535" by simp
  let ?d = "((65535 - b) * (65535 - t)) div 65535"
  have ud: "uint ?d = (65535 - uint b) * (65535 - uint t) div 65535"
    by (simp only: uint_div_65535 m)
  have "uint (65535 - ?d) = 65535 - uint ?d"
    by (rule u32_bound) (use ud q in simp)
  then show ?thesis using ud by (simp add: blendScreen_def)
qed

lemma uint_clamp_add:
  fixes b t :: uint32
  assumes "uint b \<le> 65535" "uint t \<le> 65535"
  shows "uint (clamp (b + t)) = min 65535 (uint b + uint t)"
proof -
  have "uint (b + t) = uint b + uint t"
    using assms by (simp add: uint_add_lem[THEN iffD1])
  then show ?thesis by (simp add: clamp_def uint_gt_65535 min_def)
qed

lemma uint_multiply:
  fixes b t :: uint32
  assumes "uint b \<le> 65535" "uint t \<le> 65535"
  shows "uint ((b * t) div 65535) = (uint b * uint t) div 65535"
  by (simp only: uint_div_65535 uint_mul2[OF assms])

lemma uint_min_u32: "uint (min_u32 a b) = min (uint a) (uint b)"
  by (simp add: min_u32_def word_less_def min_def)

lemma uint_max_u32: "uint (max_u32 a b) = max (uint a) (uint b)"
  by (simp add: max_u32_def word_less_def max_def)

lemma narrow16: "uint (r::uint32) \<le> 65535 \<Longrightarrow> uint (ucast r :: uint16) = uint r"
  by (simp add: uint_word_of_int take_bit_int_eq_self unsigned_ucast_eq)

lemma blendChannel_le:
  fixes b t :: uint32
  assumes "uint b \<le> 65535" "uint t \<le> 65535"
  shows "uint (blendChannel mode b t) \<le> 65535"
proof -
  have nn: "0 \<le> uint b" "0 \<le> uint t" by simp_all
  have p1: "0 \<le> 2 * uint b * uint t div 65535" using nn by (simp add: pos_imp_zdiv_nonneg_iff)
  have p2: "0 \<le> 2 * (65535 - uint b) * (65535 - uint t) div 65535"
    using assms by (simp add: pos_imp_zdiv_nonneg_iff)
  have p3: "0 \<le> (65535 - uint b) * (65535 - uint t) div 65535"
    using assms by (simp add: pos_imp_zdiv_nonneg_iff)
  have o1: "uint b < 32768 \<Longrightarrow> 2 * uint b * uint t div 65535 \<le> 65535"
  proof -
    assume "uint b < 32768"
    then have "2 * uint b * uint t \<le> 4294770690"
      using prod_bound[of "uint b" "uint t"] assms by simp
    then show ?thesis by simp
  qed
  have m1: "uint b * uint t div 65535 \<le> 65535"
  proof -
    have "uint b * uint t \<le> 65535 * 65535" using assms by (intro mult_mono) auto
    then show ?thesis by simp
  qed
  show ?thesis
    unfolding blendChannel_def
    using assms p1 p2 p3 o1 m1
    by (auto simp add: uint_blendOverlay uint_blendScreen uint_clamp_add uint_multiply
        uint_min_u32 uint_max_u32)
qed

lemma widen8_le: "uint (widen8 c) \<le> 65535"
proof -
  let ?x = "ucast c :: uint32"
  have ux: "uint ?x = uint c" by (simp add: uint_up_ucast is_up)
  have c: "uint c < 256" using uint_bounded[of c] by simp
  have "uint (push_bit 8 ?x) = (uint ?x * 256) mod 2 ^ 32"
    by (simp add: push_bit_eq_mult uint_word_ariths)
  also have "\<dots> = uint c * 256" using c ux by simp
  finally have up: "uint (push_bit 8 ?x) = uint c * 256" .
  have "uint (widen8 c) = uint c OR (uint c * 256)"
    by (simp add: widen8_def uint_or ux up)
  moreover have "uint c OR (uint c * 256) < 2 ^ 16"
    by (rule OR_upper) (use c in auto)
  ultimately show ?thesis by simp
qed

lemma ucast16_le: "uint (ucast (c::uint16) :: uint32) \<le> 65535"
proof -
  have "uint (ucast c :: uint32) = uint c" by (simp add: uint_up_ucast is_up)
  moreover have "uint c < 2 ^ 16" using uint_bounded[of c] by simp
  ultimately show ?thesis by simp
qed

lemma Color_RGBA_le:
  "Color_RGBA c = (r, g, b, a) \<Longrightarrow> uint r \<le> 65535 \<and> uint g \<le> 65535 \<and> uint b \<le> 65535 \<and> uint a \<le> 65535"
  by (cases c) (auto simp: widen8_le ucast16_le)

lemma widen16: "uint (r::uint32) \<le> 65535 \<Longrightarrow> (ucast (ucast r :: uint16) :: uint32) = r"
proof -
  assume h: "uint r \<le> 65535"
  have "uint (ucast (ucast r :: uint16) :: uint32) = uint (ucast r :: uint16)"
    by (simp add: uint_up_ucast is_up)
  also have "\<dots> = uint r" using h by (rule narrow16)
  finally show ?thesis by (simp add: word_uint_eq_iff)
qed


text \<open>
  \<^bold>\<open>C10.\<close> For 16-bit channel values \<open>base\<close> and \<open>top\<close> (0..65535) the blend arithmetic
  in 32-bit unsigned words never overflows: the product that \<^verbatim>\<open>blendOverlay\<close> forms in the
  branch it takes, the products of Multiply and Screen and the sum of Add all equal the
  products and sum of the unbounded integers, \<^verbatim>\<open>blendOverlay\<close> and \<^verbatim>\<open>blendScreen\<close> return the
  value of the same formula on unbounded integers, and for every mode (the six named ones and
  the default branch) the channel result is at most 65535, so that narrowing it to
  \<^verbatim>\<open>uint16\<close> loses nothing.
\<close>

theorem blend_arithmetic_fits_uint32:
  fixes base top :: uint32
  assumes "uint base \<le> 65535" and "uint top \<le> 65535"
  shows "uint (if base < 32768 then 2 * base * top else 2 * (65535 - base) * (65535 - top))
           = (if uint base < 32768 then 2 * uint base * uint top
              else 2 * (65535 - uint base) * (65535 - uint top))
       \<and> uint (base * top) = uint base * uint top
       \<and> uint ((65535 - base) * (65535 - top)) = (65535 - uint base) * (65535 - uint top)
       \<and> uint (base + top) = uint base + uint top
       \<and> uint (blendOverlay base top)
           = (if uint base < 32768 then (2 * uint base * uint top) div 65535
              else 65535 - (2 * (65535 - uint base) * (65535 - uint top)) div 65535)
       \<and> uint (blendScreen base top)
           = 65535 - ((65535 - uint base) * (65535 - uint top)) div 65535
       \<and> uint (blendChannel mode base top) \<le> 65535
       \<and> (ucast (ucast (blendChannel mode base top) :: uint16) :: uint32)
           = blendChannel mode base top"
proof -
  have sb: "uint (65535 - base) = 65535 - uint base" using assms(1) by (rule u32_bound)
  have st: "uint (65535 - top) = 65535 - uint top" using assms(2) by (rule u32_bound)
  have c1: "uint (if base < 32768 then 2 * base * top else 2 * (65535 - base) * (65535 - top))
           = (if uint base < 32768 then 2 * uint base * uint top
              else 2 * (65535 - uint base) * (65535 - uint top))"
  proof (cases "uint base < 32768")
    case True
    then have "uint base \<le> 32767" by simp
    then have "uint (2 * base * top) = 2 * uint base * uint top"
      using assms(2) by (rule uint_mul3)
    then show ?thesis using True by (simp add: uint_lt_32768)
  next
    case False
    have "uint (65535 - base) \<le> 32767" using False sb by simp
    moreover have "uint (65535 - top) \<le> 65535" using st by simp
    ultimately have "uint (2 * (65535 - base) * (65535 - top))
        = 2 * uint (65535 - base) * uint (65535 - top)"
      by (rule uint_mul3)
    then show ?thesis using False sb st by (simp add: uint_lt_32768)
  qed
  have c2: "uint (base * top) = uint base * uint top"
    using assms by (rule uint_mul2)
  have "uint ((65535 - base) * (65535 - top)) = uint (65535 - base) * uint (65535 - top)"
    by (rule uint_mul2) (use sb st in simp_all)
  then have c3: "uint ((65535 - base) * (65535 - top)) = (65535 - uint base) * (65535 - uint top)"
    using sb st by simp
  have c4: "uint (base + top) = uint base + uint top"
    using assms by (simp add: uint_add_lem[THEN iffD1])
  have c5: "uint (blendChannel mode base top) \<le> 65535"
    using assms by (rule blendChannel_le)
  have c6: "(ucast (ucast (blendChannel mode base top) :: uint16) :: uint32)
           = blendChannel mode base top"
    using c5 by (rule widen16)
  show ?thesis
    using c1 c2 c3 c4 c5 c6 uint_blendOverlay[OF assms] uint_blendScreen[OF assms]
    by (intro conjI)
qed

theorem blend_arithmetic_fits_uint32_witness:
  "uint (40000 :: uint32) \<le> 65535 \<and> uint (50000 :: uint32) \<le> 65535
   \<and> uint (2 * (65535 - 40000) * (65535 - 50000) :: uint32) = 793372450
   \<and> uint (blendOverlay 40000 50000) = 53429
   \<and> uint (blendChannel Overlay 40000 50000) \<le> 65535
   \<and> (ucast (ucast (blendChannel Overlay 40000 50000) :: uint16) :: uint32)
       = blendChannel Overlay 40000 50000"
proof -
  have h1: "uint (40000 :: uint32) \<le> 65535" by simp
  have h2: "uint (50000 :: uint32) \<le> 65535" by simp
  show ?thesis
    using h1 h2 blend_arithmetic_fits_uint32 [OF h1 h2, of Overlay] by simp
qed

subsection \<open>The blend modes against the formulas of the specification\<close>

lemma floor_scaled:
  fixes p :: int
  shows "\<lfloor>(of_int p :: rat) / 65535\<rfloor> = p div 65535"
  using floor_divide_of_int_eq[of p 65535, where ?'a = rat] by simp

lemma ceiling_scaled:
  fixes p :: int
  shows "\<lceil>65535 - (of_int p :: rat) / 65535\<rceil> = 65535 - p div 65535"
proof -
  have "\<lceil>65535 - (of_int p :: rat) / 65535\<rceil> = - \<lfloor>(of_int p :: rat) / 65535 - 65535\<rfloor>"
    by (simp add: ceiling_def)
  also have "\<dots> = - (\<lfloor>(of_int p :: rat) / 65535\<rfloor> - 65535)"
    using floor_diff_of_int[of "(of_int p :: rat) / 65535" 65535] by simp
  also have "\<dots> = 65535 - p div 65535" by (simp add: floor_scaled)
  finally show ?thesis .
qed

lemma spec_half: "(spec_normalise b < 1 / 2) = (uint b < 32768)"
proof -
  have "(spec_normalise b < 1 / 2) = ((of_int (uint b * 2) :: rat) < of_int 65535)"
    by (simp add: spec_normalise_def)
  also have "\<dots> = (uint b * 2 < 65535)"
    by (rule of_int_less_iff)
  also have "\<dots> = (uint b < 32768)" by auto
  finally show ?thesis .
qed

lemma spec_scale_mult:
  "65535 * (spec_normalise b * spec_normalise t) = of_int (uint b * uint t) / 65535"
  by (simp add: spec_normalise_def)

lemma spec_scale_mult2:
  "65535 * (2 * spec_normalise b * spec_normalise t) = of_int (2 * uint b * uint t) / 65535"
  by (simp add: spec_normalise_def)

lemma spec_scale_compl:
  "65535 * (1 - (1 - spec_normalise b) * (1 - spec_normalise t))
     = 65535 - of_int ((65535 - uint b) * (65535 - uint t)) / 65535"
  by (simp add: spec_normalise_def field_simps)

lemma spec_scale_compl2:
  "65535 * (1 - 2 * (1 - spec_normalise b) * (1 - spec_normalise t))
     = 65535 - of_int (2 * (65535 - uint b) * (65535 - uint t)) / 65535"
  by (simp add: spec_normalise_def field_simps)

lemma Color_RGBA_blendColors:
  "Color_RGBA (blendColors base ovl mode) =
     (case Color_RGBA base of (r1, g1, b1, a1) \<Rightarrow>
      case Color_RGBA ovl of (r2, g2, b2, a2) \<Rightarrow>
        (blendChannel mode r1 r2, blendChannel mode g1 g2, blendChannel mode b1 b2, a2))"
proof -
  obtain r1 g1 b1 a1 where B: "Color_RGBA base = (r1, g1, b1, a1)" by (cases "Color_RGBA base") auto
  obtain r2 g2 b2 a2 where O: "Color_RGBA ovl = (r2, g2, b2, a2)" by (cases "Color_RGBA ovl") auto
  note b = Color_RGBA_le[OF B] and t = Color_RGBA_le[OF O]
  have "ucast (ucast (blendChannel mode r1 r2) :: uint16) = blendChannel mode r1 r2"
       "ucast (ucast (blendChannel mode g1 g2) :: uint16) = blendChannel mode g1 g2"
       "ucast (ucast (blendChannel mode b1 b2) :: uint16) = blendChannel mode b1 b2"
       "ucast (ucast a2 :: uint16) = a2"
    using b t by (simp_all add: widen16 blendChannel_le)
  then show ?thesis by (simp add: blendColors_def B O)
qed

lemma modes_distinct:
  "Overlay \<noteq> Add" "Overlay \<noteq> Multiply" "Overlay \<noteq> Screen" "Overlay \<noteq> Darken" "Overlay \<noteq> Lighten"
  "Add \<noteq> Overlay" "Add \<noteq> Multiply" "Add \<noteq> Screen" "Add \<noteq> Darken" "Add \<noteq> Lighten"
  "Multiply \<noteq> Overlay" "Multiply \<noteq> Add" "Multiply \<noteq> Screen" "Multiply \<noteq> Darken" "Multiply \<noteq> Lighten"
  "Screen \<noteq> Overlay" "Screen \<noteq> Add" "Screen \<noteq> Multiply" "Screen \<noteq> Darken" "Screen \<noteq> Lighten"
  "Darken \<noteq> Overlay" "Darken \<noteq> Add" "Darken \<noteq> Multiply" "Darken \<noteq> Screen" "Darken \<noteq> Lighten"
  "Lighten \<noteq> Overlay" "Lighten \<noteq> Add" "Lighten \<noteq> Multiply" "Lighten \<noteq> Screen" "Lighten \<noteq> Darken"
  by (simp_all add: Overlay_def Add_def Multiply_def Screen_def Darken_def Lighten_def)

lemma spec_overlay_scaled:
  assumes "uint c1 \<le> 65535" "uint c2 \<le> 65535"
  shows "uint (blendChannel Overlay c1 c2) =
     (if uint c1 < 32768 then \<lfloor>spec_on_integer_scale Overlay c1 c2\<rfloor>
      else \<lceil>spec_on_integer_scale Overlay c1 c2\<rceil>)"
proof (cases "uint c1 < 32768")
  case True
  have "spec_on_integer_scale Overlay c1 c2 = of_int (2 * uint c1 * uint c2) / 65535"
    using True by (simp only: spec_on_integer_scale_def spec_blend_def spec_half if_True simp_thms spec_scale_mult2)
  then have "\<lfloor>spec_on_integer_scale Overlay c1 c2\<rfloor> = (2 * uint c1 * uint c2) div 65535"
    by (simp only: floor_scaled)
  then show ?thesis using True by (simp add: blendChannel_def uint_blendOverlay[OF assms])
next
  case False
  have "spec_on_integer_scale Overlay c1 c2
      = 65535 - of_int (2 * (65535 - uint c1) * (65535 - uint c2)) / 65535"
    using False by (simp only: spec_on_integer_scale_def spec_blend_def spec_half if_True if_False simp_thms spec_scale_compl2)
  then have "\<lceil>spec_on_integer_scale Overlay c1 c2\<rceil> = 65535 - (2 * (65535 - uint c1) * (65535 - uint c2)) div 65535"
    by (simp only: ceiling_scaled)
  then show ?thesis using False by (simp add: blendChannel_def uint_blendOverlay[OF assms])
qed

lemma spec_multiply_scaled:
  assumes "uint c1 \<le> 65535" "uint c2 \<le> 65535"
  shows "uint (blendChannel Multiply c1 c2) = \<lfloor>spec_on_integer_scale Multiply c1 c2\<rfloor>"
proof -
  have "spec_on_integer_scale Multiply c1 c2 = of_int (uint c1 * uint c2) / 65535"
    by (simp add: spec_on_integer_scale_def spec_blend_def modes_distinct spec_normalise_def)
  then have "\<lfloor>spec_on_integer_scale Multiply c1 c2\<rfloor> = (uint c1 * uint c2) div 65535"
    by (simp only: floor_scaled)
  then show ?thesis by (simp add: blendChannel_def modes_distinct uint_multiply[OF assms])
qed

lemma spec_screen_scaled:
  assumes "uint c1 \<le> 65535" "uint c2 \<le> 65535"
  shows "uint (blendChannel Screen c1 c2) = \<lceil>spec_on_integer_scale Screen c1 c2\<rceil>"
proof -
  have "spec_on_integer_scale Screen c1 c2
      = 65535 - of_int ((65535 - uint c1) * (65535 - uint c2)) / 65535"
    by (simp only: spec_on_integer_scale_def spec_blend_def modes_distinct if_False if_True simp_thms spec_scale_compl)
  then have "\<lceil>spec_on_integer_scale Screen c1 c2\<rceil> = 65535 - ((65535 - uint c1) * (65535 - uint c2)) div 65535"
    by (simp only: ceiling_scaled)
  then show ?thesis by (simp add: blendChannel_def modes_distinct uint_blendScreen[OF assms])
qed

lemma scaled_add_int:
  fixes p q :: int
  assumes "0 \<le> p" "0 \<le> q"
  shows "65535 * spec_clamp ((of_int p :: rat) / 65535 + of_int q / 65535) = of_int (min 65535 (p + q))"
proof -
  have nn: "(0::rat) \<le> of_int p + of_int q" using assms by simp
  show ?thesis
  proof (cases "p + q \<le> 65535")
    case True
    then have "(of_int (p + q) :: rat) \<le> of_int 65535" by (simp only: of_int_le_iff)
    then have "(of_int p :: rat) / 65535 + of_int q / 65535 \<le> 1" by simp
    moreover have "(0::rat) \<le> of_int p / 65535 + of_int q / 65535" using assms by simp
    ultimately have "spec_clamp ((of_int p :: rat) / 65535 + of_int q / 65535) = of_int p / 65535 + of_int q / 65535"
      by (simp add: spec_clamp_def)
    then show ?thesis using True by (simp add: min_def)
  next
    case False
    then have "(of_int 65535 :: rat) < of_int (p + q)" by (simp only: of_int_less_iff not_le)
    then have "1 < (of_int p :: rat) / 65535 + of_int q / 65535" by simp
    then have "spec_clamp ((of_int p :: rat) / 65535 + of_int q / 65535) = 1"
      by (simp add: spec_clamp_def)
    then show ?thesis using False by (simp add: min_def)
  qed
qed

lemma scaled_min_int:
  fixes p q :: int
  shows "65535 * min ((of_int p :: rat) / 65535) (of_int q / 65535) = of_int (min p q)"
  by (simp add: min_def divide_le_cancel)

lemma scaled_max_int:
  fixes p q :: int
  shows "65535 * max ((of_int p :: rat) / 65535) (of_int q / 65535) = of_int (max p q)"
  by (simp add: max_def divide_le_cancel)

lemma spec_add_scaled:
  assumes "uint c1 \<le> 65535" "uint c2 \<le> 65535"
  shows "of_int (uint (blendChannel Add c1 c2)) = spec_on_integer_scale Add c1 c2"
proof -
  have "spec_on_integer_scale Add c1 c2 = of_int (min 65535 (uint c1 + uint c2))"
    by (simp only: spec_on_integer_scale_def spec_blend_def modes_distinct if_False if_True
        simp_thms spec_normalise_def scaled_add_int[OF uint_ge_0 uint_ge_0])
  moreover have "uint (blendChannel Add c1 c2) = min 65535 (uint c1 + uint c2)"
    by (simp add: blendChannel_def modes_distinct uint_clamp_add[OF assms])
  ultimately show ?thesis by (simp only:)
qed

lemma spec_darken_scaled:
  "of_int (uint (blendChannel Darken c1 c2)) = spec_on_integer_scale Darken c1 c2"
proof -
  have "spec_on_integer_scale Darken c1 c2 = of_int (min (uint c1) (uint c2))"
    by (simp only: spec_on_integer_scale_def spec_blend_def modes_distinct if_False if_True
        simp_thms spec_normalise_def scaled_min_int)
  moreover have "uint (blendChannel Darken c1 c2) = min (uint c1) (uint c2)"
    by (simp add: blendChannel_def modes_distinct uint_min_u32)
  ultimately show ?thesis by (simp only:)
qed

lemma spec_lighten_scaled:
  "of_int (uint (blendChannel Lighten c1 c2)) = spec_on_integer_scale Lighten c1 c2"
proof -
  have "spec_on_integer_scale Lighten c1 c2 = of_int (max (uint c1) (uint c2))"
    by (simp only: spec_on_integer_scale_def spec_blend_def modes_distinct if_False if_True
        simp_thms spec_normalise_def scaled_max_int)
  moreover have "uint (blendChannel Lighten c1 c2) = max (uint c1) (uint c2)"
    by (simp add: blendChannel_def modes_distinct uint_max_u32)
  ultimately show ?thesis by (simp only:)
qed

text \<open>
  \<^bold>\<open>C9.\<close> For every pair of channel values on the integer scale 0..65535, each blend mode
  returns the specification's formula evaluated on that scale, with 1 as 65535 and the
  division by 65535 truncated as integer division does: Overlay takes the branch
  \<open>base < 0.5\<close> exactly when the code takes \<open>base < 32768\<close> and returns the formula rounded
  down in that branch and rounded up in the other (where the truncated quotient is
  subtracted from 65535); Multiply is the formula rounded down, Screen the formula rounded up;
  Add, Darken and Lighten are the formula exactly. The colour \<^verbatim>\<open>blendColors\<close> returns carries
  these channel values unchanged, and its alpha is the alpha of the overlay colour.
\<close>

theorem blend_modes_compute_spec_formulas:
  fixes c1 c2 :: uint32 and base ovl :: Color
  assumes "uint c1 \<le> 65535" and "uint c2 \<le> 65535"
  shows "uint (blendChannel Overlay c1 c2)
           = (if uint c1 < 32768 then \<lfloor>spec_on_integer_scale Overlay c1 c2\<rfloor>
              else \<lceil>spec_on_integer_scale Overlay c1 c2\<rceil>)
       \<and> (spec_normalise c1 < 1 / 2) = (uint c1 < 32768)
       \<and> of_int (uint (blendChannel Add c1 c2)) = spec_on_integer_scale Add c1 c2
       \<and> uint (blendChannel Multiply c1 c2) = \<lfloor>spec_on_integer_scale Multiply c1 c2\<rfloor>
       \<and> uint (blendChannel Screen c1 c2) = \<lceil>spec_on_integer_scale Screen c1 c2\<rceil>
       \<and> of_int (uint (blendChannel Darken c1 c2)) = spec_on_integer_scale Darken c1 c2
       \<and> of_int (uint (blendChannel Lighten c1 c2)) = spec_on_integer_scale Lighten c1 c2
       \<and> Color_RGBA (blendColors base ovl mode)
           = (case Color_RGBA base of (r1, g1, b1, a1) \<Rightarrow>
              case Color_RGBA ovl of (r2, g2, b2, a2) \<Rightarrow>
                (blendChannel mode r1 r2, blendChannel mode g1 g2, blendChannel mode b1 b2, a2))
       \<and> alpha_of (blendColors base ovl mode) = alpha_of ovl"
proof -
  have al: "alpha_of (blendColors base ovl mode) = alpha_of ovl"
    unfolding alpha_of_def Color_RGBA_blendColors by (simp split: prod.splits)
  show ?thesis
    using spec_overlay_scaled[OF assms] spec_half[of c1] spec_add_scaled[OF assms]
      spec_multiply_scaled[OF assms] spec_screen_scaled[OF assms]
      spec_darken_scaled[of c1 c2] spec_lighten_scaled[of c1 c2]
      Color_RGBA_blendColors[of base ovl mode] al
    by (intro conjI)
qed

theorem blend_modes_compute_spec_formulas_witness:
  "uint (40000 :: uint32) \<le> 65535 \<and> uint (50000 :: uint32) \<le> 65535
   \<and> \<lceil>spec_on_integer_scale Overlay 40000 50000\<rceil> = 53429
   \<and> spec_on_integer_scale Add 40000 50000 = 65535
   \<and> \<lfloor>spec_on_integer_scale Multiply 40000 50000\<rfloor> = 30518
   \<and> \<lceil>spec_on_integer_scale Screen 40000 50000\<rceil> = 59482
   \<and> spec_on_integer_scale Darken 40000 50000 = 40000
   \<and> spec_on_integer_scale Lighten 40000 50000 = 50000
   \<and> alpha_of (blendColors (RGBA 10 20 30 255) (RGBA 1 2 3 128) Multiply) = 32896"
proof -
  have h1: "uint (40000 :: uint32) \<le> 65535" by simp
  have h2: "uint (50000 :: uint32) \<le> 65535" by simp
  have e: "uint (blendChannel Overlay 40000 50000) = 53429"
    "uint (blendChannel Add 40000 50000) = 65535"
    "uint (blendChannel Multiply 40000 50000) = 30518"
    "uint (blendChannel Screen 40000 50000) = 59482"
    "uint (blendChannel Darken 40000 50000) = 40000"
    "uint (blendChannel Lighten 40000 50000) = 50000"
    by (simp_all add: blendChannel_def modes_distinct blendOverlay_def blendScreen_def clamp_def
        min_u32_def max_u32_def)
  have a: "alpha_of (RGBA 1 2 3 128) = 32896"
    by (simp add: alpha_of_def widen8_def)
  show ?thesis
    using h1 h2 e a
      blend_modes_compute_spec_formulas [OF h1 h2, of "RGBA 10 20 30 255" "RGBA 1 2 3 128" Multiply]
    by simp
qed

subsection \<open>Resize: declared and produced dimensions\<close>

lemma smod2_odd: "(w smod 2 \<noteq> 0) = odd (w::int)"
proof -
  have "\<bar>w\<bar> mod 2 = (if odd w then 1 else 0)" by presburger
  then show ?thesis by (simp add: smod_int_alt_def sgn_if)
qed

lemma even_wrap64: "even (wrap64 k) = even k"
proof -
  have "(2::int) dvd 2 ^ 64" by simp
  then have "even ((k + 2 ^ 63) mod 2 ^ 64) = even (k + 2 ^ 63)"
    by (rule dvd_mod_iff)
  then show ?thesis by (simp add: wrap64_def)
qed

lemma wrap64_id: "in_int64 k \<Longrightarrow> wrap64 k = k"
  by (simp add: wrap64_def in_int64_def)

lemma Bounds_Set_px: "Bounds (Set_px p x y c) = Bounds p"
  by (simp add: Set_px_def)

lemma Bounds_fold_Set:
  "(\<And>x p. Bounds (f x p) = Bounds p) \<Longrightarrow> Bounds (fold f xs p) = Bounds p"
  by (induction xs arbitrary: p) simp_all

lemma Bounds_for_range:
  "(\<And>x p. Bounds (f x p) = Bounds p) \<Longrightarrow> Bounds (for_range lo hi f p) = Bounds p"
  by (simp add: for_range_def Bounds_fold_Set)

lemma Dx_Rect: "0 \<le> w \<Longrightarrow> in_int64 w \<Longrightarrow> Dx (Rect 0 0 w h) = w"
  by (simp add: Dx_def Rect_def wrap64_id Let_def split: if_splits)

lemma Dy_Rect: "0 \<le> h \<Longrightarrow> in_int64 h \<Longrightarrow> Dy (Rect 0 0 w h) = h"
  by (simp add: Dy_def Rect_def wrap64_id Let_def split: if_splits)

lemma in_int64_wrap64: "in_int64 (wrap64 k)"
proof -
  have "0 \<le> (k + 2 ^ 63) mod 2 ^ 64" "(k + 2 ^ 63) mod 2 ^ 64 < (2 ^ 64 :: int)"
    by simp_all
  then show ?thesis by (simp add: wrap64_def in_int64_def)
qed

lemma NewResizeEffect_fields:
  "re_width (NewResizeEffect w h) = (if odd w then wrap64 (w + 1) else w)"
  "re_height (NewResizeEffect w h) = (if odd h then wrap64 (h + 1) else h)"
  by (simp_all add: NewResizeEffect_def smod2_odd Let_def)

lemma NewResizeEffect_even:
  "even (re_width (NewResizeEffect w h))" "even (re_height (NewResizeEffect w h))"
  by (simp_all add: NewResizeEffect_fields even_wrap64)

lemma NewResizeEffect_in_int64:
  "in_int64 w \<Longrightarrow> in_int64 (re_width (NewResizeEffect w h))"
  "in_int64 h \<Longrightarrow> in_int64 (re_height (NewResizeEffect w h))"
  by (simp_all add: NewResizeEffect_fields in_int64_wrap64)

lemma mul3NonNeg_ok:
  "mul3NonNeg 4 W H \<ge> 0 \<longleftrightarrow> (0 \<le> W \<and> 0 \<le> H \<and> 4 * W < 2 ^ 64 \<and> 4 * W * H < 2 ^ 63)"
proof (cases "0 \<le> W \<and> 0 \<le> H")
  case False
  then show ?thesis by (auto simp: mul3NonNeg_def)
next
  case True
  then have nn: "0 \<le> 4 * W * H" by simp
  show ?thesis using True nn
    by (auto simp: mul3NonNeg_def)
qed

lemma ResizeEffect_ApplyToFrame_Inr:
  assumes "ResizeEffect_ApplyToFrame re frame = Inr dst"
  shows "Bounds dst = Rect 0 0 (re_width re) (re_height re)"
    and "0 \<le> mul3NonNeg 4 (Dx (Bounds dst)) (Dy (Bounds dst))"
  using assms
  by (auto simp: ResizeEffect_ApplyToFrame_def NewRGBA_def Let_def Bounds_for_range Bounds_Set_px
      split: sum.splits if_splits)

lemma ResizeEffect_ApplyToFrame_returns:
  assumes "0 \<le> mul3NonNeg 4 (Dx (Rect 0 0 (re_width re) (re_height re)))
             (Dy (Rect 0 0 (re_width re) (re_height re)))"
  shows "\<exists>dst. ResizeEffect_ApplyToFrame re frame = Inr dst"
  using assms by (simp add: ResizeEffect_ApplyToFrame_def NewRGBA_def Let_def)


text \<open>
  \<^bold>\<open>C7\<close> (as amended). For all requested integers \<open>w\<close> and \<open>h\<close> of Go's \<^verbatim>\<open>int\<close>, the dimensions
  \<^verbatim>\<open>NewResizeEffect\<close> declares are both even: each is the request when it is even and the
  request plus one (wrapping at the largest \<^verbatim>\<open>int\<close>) when it is odd. For every source frame,
  \<^verbatim>\<open>ApplyToFrame\<close> returns a frame of exactly the declared width and height if and only if
  the declared width and height are not negative and the RGBA buffer of
  \<open>4 * width * height\<close> bytes fits an \<^verbatim>\<open>int\<close>.
\<close>

theorem Resize_output_dimensions:
  assumes "in_int64 w" and "in_int64 h"
  shows "even (re_width (NewResizeEffect w h)) \<and> even (re_height (NewResizeEffect w h))
       \<and> re_width (NewResizeEffect w h) = (if odd w then wrap64 (w + 1) else w)
       \<and> re_height (NewResizeEffect w h) = (if odd h then wrap64 (h + 1) else h)
       \<and> ((\<exists>dst. ResizeEffect_ApplyToFrame (NewResizeEffect w h) frame = Inr dst
                 \<and> Dx (Bounds dst) = re_width (NewResizeEffect w h)
                 \<and> Dy (Bounds dst) = re_height (NewResizeEffect w h))
            = (0 \<le> re_width (NewResizeEffect w h) \<and> 0 \<le> re_height (NewResizeEffect w h)
               \<and> 4 * re_width (NewResizeEffect w h) < 2 ^ 64
               \<and> 4 * re_width (NewResizeEffect w h) * re_height (NewResizeEffect w h) < 2 ^ 63))"
proof -
  define re where "re = NewResizeEffect w h"
  define W where "W = re_width re"
  define H where "H = re_height re"
  have rW: "in_int64 W" and rH: "in_int64 H"
    using assms by (simp_all add: W_def H_def re_def NewResizeEffect_in_int64)
  note c1 = ResizeEffect_ApplyToFrame_Inr[of re frame, folded W_def H_def]
  note c2 = ResizeEffect_ApplyToFrame_returns[of re frame, folded W_def H_def]
  have iff: "(\<exists>dst. ResizeEffect_ApplyToFrame re frame = Inr dst \<and> Dx (Bounds dst) = W \<and> Dy (Bounds dst) = H)
           = (0 \<le> W \<and> 0 \<le> H \<and> 4 * W < 2 ^ 64 \<and> 4 * W * H < 2 ^ 63)"
  proof
    assume "\<exists>dst. ResizeEffect_ApplyToFrame re frame = Inr dst \<and> Dx (Bounds dst) = W \<and> Dy (Bounds dst) = H"
    then obtain dst where d: "ResizeEffect_ApplyToFrame re frame = Inr dst"
      "Dx (Bounds dst) = W" "Dy (Bounds dst) = H" by blast
    from d(1) have "0 \<le> mul3NonNeg 4 (Dx (Bounds dst)) (Dy (Bounds dst))" by (rule c1(2))
    then have "0 \<le> mul3NonNeg 4 W H" using d by simp
    then show "0 \<le> W \<and> 0 \<le> H \<and> 4 * W < 2 ^ 64 \<and> 4 * W * H < 2 ^ 63"
      by (simp only: mul3NonNeg_ok)
  next
    assume a: "0 \<le> W \<and> 0 \<le> H \<and> 4 * W < 2 ^ 64 \<and> 4 * W * H < 2 ^ 63"
    then have dx: "Dx (Rect 0 0 W H) = W" and dy: "Dy (Rect 0 0 W H) = H"
      using rW rH by (simp_all add: Dx_Rect Dy_Rect)
    have "0 \<le> mul3NonNeg 4 W H" using a by (simp only: mul3NonNeg_ok)
    then obtain dst where d: "ResizeEffect_ApplyToFrame re frame = Inr dst"
      using c2 dx dy by auto
    then have "Bounds dst = Rect 0 0 W H" by (rule c1(1))
    then show "\<exists>dst. ResizeEffect_ApplyToFrame re frame = Inr dst \<and> Dx (Bounds dst) = W \<and> Dy (Bounds dst) = H"
      using d dx dy by auto
  qed
  show ?thesis
    using iff NewResizeEffect_even[of w h] NewResizeEffect_fields[of w h]
    unfolding W_def H_def re_def by simp
qed


theorem Resize_output_dimensions_witness:
  "in_int64 3 \<and> in_int64 5
   \<and> re_width (NewResizeEffect 3 5) = 4 \<and> re_height (NewResizeEffect 3 5) = 6
   \<and> (\<exists>dst. ResizeEffect_ApplyToFrame (NewResizeEffect 3 5)
               \<lparr>Pix = (\<lambda>x y. (7, 8, 9, 255)), Bounds = Rect 0 0 2 2\<rparr> = Inr dst
            \<and> Dx (Bounds dst) = 4 \<and> Dy (Bounds dst) = 6)"
proof -
  have h1: "in_int64 3" and h2: "in_int64 5" by (simp_all add: in_int64_def)
  have f: "re_width (NewResizeEffect 3 5) = 4" "re_height (NewResizeEffect 3 5) = 6"
    by (simp_all add: NewResizeEffect_def wrap64_def smod_int_alt_def)
  show ?thesis
    using h1 h2
      Resize_output_dimensions [OF h1 h2, of "\<lparr>Pix = (\<lambda>x y. (7, 8, 9, 255)), Bounds = Rect 0 0 2 2\<rparr>"]
    by (simp add: f)
qed


text \<open>The claim as stated, for all requested integers, fails: the request \<open>(-3, 4)\<close>
  declares the width \<open>-2\<close> and \<^verbatim>\<open>ApplyToFrame\<close> returns a frame of width \<open>2\<close>
  (\<^verbatim>\<open>image.Rect\<close> orders the corners), and the request \<open>(2^31, 2^31)\<close> makes
  \<^verbatim>\<open>image.NewRGBA\<close> panic, so that no frame is returned.\<close>

theorem Resize_negative_request_counterexample:
  "re_width (NewResizeEffect (- 3) 4) = - 2
   \<and> map_sum id (\<lambda>dst. Dx (Bounds dst))
        (ResizeEffect_ApplyToFrame (NewResizeEffect (- 3) 4)
           \<lparr>Pix = (\<lambda>x y. (7, 8, 9, 255)), Bounds = Rect 0 0 2 2\<rparr>) = Inr 2
   \<and> ResizeEffect_ApplyToFrame (NewResizeEffect 2147483648 2147483648)
        \<lparr>Pix = (\<lambda>x y. (7, 8, 9, 255)), Bounds = Rect 0 0 2 2\<rparr> = Inl Panic"
proof -
  have f: "re_width (NewResizeEffect (- 3) 4) = - 2" "re_height (NewResizeEffect (- 3) 4) = 4"
    "re_width (NewResizeEffect 2147483648 2147483648) = 2147483648"
    "re_height (NewResizeEffect 2147483648 2147483648) = 2147483648"
    by (simp_all add: NewResizeEffect_fields wrap64_def)
  have r: "Rect 0 0 (- 2) 4 = \<lparr>Rect_Min = \<lparr>X = - 2, Y = 0\<rparr>, Rect_Max = \<lparr>X = 0, Y = 4\<rparr>\<rparr>"
    "Rect 0 0 2147483648 2147483648
       = \<lparr>Rect_Min = \<lparr>X = 0, Y = 0\<rparr>, Rect_Max = \<lparr>X = 2147483648, Y = 2147483648\<rparr>\<rparr>"
    by (simp_all add: Rect_def)
  have d: "Dx (Rect 0 0 (- 2) 4) = 2" "Dy (Rect 0 0 (- 2) 4) = 4"
    "Dx (Rect 0 0 2147483648 2147483648) = 2147483648"
    "Dy (Rect 0 0 2147483648 2147483648) = 2147483648"
    by (simp_all add: r Dx_def Dy_def wrap64_def)
  have m: "mul3NonNeg 4 2 4 = 32" "mul3NonNeg 4 2147483648 2147483648 = - 1"
    by (simp_all add: mul3NonNeg_def)
  show ?thesis
    by (simp add: f ResizeEffect_ApplyToFrame_def NewRGBA_def d m Let_def
        Bounds_for_range Bounds_Set_px)
qed

subsection \<open>Compositing: the canvas is a copy\<close>

lemma Pix_fold_row:
  "Pix (fold (\<lambda>x c. Set_px c x y (f x)) xs c0) x' y' =
     (if x' \<in> set xs \<and> y' = y \<and> Point_In x' y (Bounds c0) then rgbaModel (f x')
      else Pix c0 x' y')"
proof (induction xs arbitrary: c0)
  case Nil
  then show ?case by simp
next
  case (Cons a xs)
  have b: "Bounds (Set_px c0 a y (f a)) = Bounds c0" by (rule Bounds_Set_px)
  have p: "Pix (Set_px c0 a y (f a)) x' y' =
      (if a = x' \<and> y = y' \<and> Point_In a y (Bounds c0) then rgbaModel (f a) else Pix c0 x' y')"
    by (simp add: Set_px_def)
  show ?case
    unfolding fold_simps Cons.IH b p by auto
qed

lemma Bounds_fold_row:
  "Bounds (fold (\<lambda>x c. Set_px c x y (f x)) xs c0) = Bounds c0"
  by (rule Bounds_fold_Set) (rule Bounds_Set_px)

lemma Pix_fold_grid:
  "Pix (fold (\<lambda>y c. fold (\<lambda>x c. Set_px c x y (f x y)) xs c) ys c0) x' y' =
     (if x' \<in> set xs \<and> y' \<in> set ys \<and> Point_In x' y' (Bounds c0) then rgbaModel (f x' y')
      else Pix c0 x' y')"
proof (induction ys arbitrary: c0)
  case Nil
  then show ?case by simp
next
  case (Cons a ys)
  show ?case
    unfolding fold_simps Cons.IH Bounds_fold_row Pix_fold_row by auto
qed

lemma Pix_for_range_grid:
  "Pix (for_range ylo yhi (\<lambda>y. for_range xlo xhi (\<lambda>x c. Set_px c x y (f x y))) c0) x' y' =
     (if xlo \<le> x' \<and> x' < xhi \<and> ylo \<le> y' \<and> y' < yhi \<and> Point_In x' y' (Bounds c0)
      then rgbaModel (f x' y') else Pix c0 x' y')"
  unfolding for_range_def Pix_fold_grid by auto

lemma Bounds_for_range_grid:
  "Bounds (for_range ylo yhi (\<lambda>y. for_range xlo xhi (\<lambda>x c. Set_px c x y (f x y))) c0) = Bounds c0"
  by (intro Bounds_for_range Bounds_Set_px)

lemma rgbaModel_At: "Point_In x y (Bounds p) \<Longrightarrow> rgbaModel (At p x y) = Pix p x y"
  by (simp add: At_def split: prod.splits)

text \<open>The copy loop of \<^verbatim>\<open>GetFrame\<close>: the canvas shows the base frame at every point.\<close>

lemma At_copy:
  assumes "Bounds c0 = Bounds b"
  shows "At (for_range (Y (Rect_Min (Bounds b))) (Y (Rect_Max (Bounds b))) (\<lambda>y.
              for_range (X (Rect_Min (Bounds b))) (X (Rect_Max (Bounds b))) (\<lambda>x c.
                Set_px c x y (At b x y))) c0) x y = At b x y"
proof (cases "Point_In x y (Bounds b)")
  case False
  then show ?thesis by (simp add: At_def Bounds_for_range_grid assms)
next
  case True
  then have r: "X (Rect_Min (Bounds b)) \<le> x \<and> x < X (Rect_Max (Bounds b)) \<and>
      Y (Rect_Min (Bounds b)) \<le> y \<and> y < Y (Rect_Max (Bounds b))"
    by (simp add: Point_In_def)
  show ?thesis
    using True r by (simp add: At_def Bounds_for_range_grid Pix_for_range_grid assms split: prod.splits)
qed

lemma compositePixel_update:
  "compositePixel base overlay position mode ox oy bb y x h
     = h[base := compositePixel base overlay position mode ox oy bb y x h ! base]"
proof (cases "base < length h")
  case True
  then show ?thesis by (simp add: compositePixel_def Let_def)
next
  case False
  then have "h[base := v] = h" for v by (simp add: list_update_beyond)
  then show ?thesis by (simp add: compositePixel_def Let_def)
qed

lemma fold_update_only:
  assumes "\<And>x h. f x h = h[base := f x h ! base]"
  shows "fold f xs h = h[base := fold f xs h ! base]"
proof (induction xs arbitrary: h)
  case Nil
  show ?case
  proof (cases "base < length h")
    case True
    then show ?thesis by simp
  next
    case False
    then show ?thesis by (simp add: list_update_beyond)
  qed
next
  case (Cons a xs)
  let ?v = "fold f xs (f a h) ! base"
  have s1: "fold f xs (f a h) = (f a h)[base := ?v]" by (rule Cons.IH)
  have s2: "f a h = h[base := f a h ! base]" by (rule assms)
  have "(f a h)[base := ?v] = (h[base := f a h ! base])[base := ?v]"
    by (subst s2) (rule refl)
  also have "\<dots> = h[base := ?v]" by (rule list_update_overwrite)
  finally have s3: "(f a h)[base := ?v] = h[base := ?v]" .
  have "fold f xs (f a h) = h[base := ?v]" using s1 s3 by (rule trans)
  then show ?case by (simp only: fold_simps comp_apply)
qed


lemma compositeFrame_update:
  "compositeFrame h base overlay position mode
     = h[base := compositeFrame h base overlay position mode ! base]"
proof -
  obtain ox oy where o: "calculateOffset (Bounds (h ! base)) (Bounds (h ! overlay)) position = (ox, oy)"
    by (cases "calculateOffset (Bounds (h ! base)) (Bounds (h ! overlay)) position")
  let ?row = "\<lambda>y. for_range (X (Rect_Min (Bounds (h ! overlay)))) (X (Rect_Max (Bounds (h ! overlay))))
             (compositePixel base overlay position mode ox oy (Bounds (h ! base)) y)"
  have row: "?row y g = g[base := ?row y g ! base]" for y g
    unfolding for_range_def by (rule fold_update_only) (rule compositePixel_update)
  have cf: "compositeFrame h base overlay position mode
      = for_range (Y (Rect_Min (Bounds (h ! overlay)))) (Y (Rect_Max (Bounds (h ! overlay)))) ?row h"
    by (simp add: compositeFrame_def Let_def o)
  have "for_range (Y (Rect_Min (Bounds (h ! overlay)))) (Y (Rect_Max (Bounds (h ! overlay)))) ?row h
      = h[base := for_range (Y (Rect_Min (Bounds (h ! overlay)))) (Y (Rect_Max (Bounds (h ! overlay)))) ?row h ! base]"
    unfolding for_range_def[of "Y (Rect_Min (Bounds (h ! overlay)))"]
    by (rule fold_update_only) (rule row)
  then show ?thesis by (simp only: cf)
qed

lemma take_compositeFrame:
  "c \<le> base \<Longrightarrow> take c (compositeFrame h base overlay position mode) = take c h"
  by (subst compositeFrame_update) (rule take_update_cancel)

lemma length_compositeFrame:
  "length (compositeFrame h base overlay position mode) = length h"
  by (subst compositeFrame_update) (rule length_list_update)

lemma applyTransform_store:
  assumes "applyTransform h fa position = (r, h')"
  shows "length h \<le> length h'" and "take (length h) h' = h"
  using assms
  by (auto simp: applyTransform_def Let_def split: if_splits sum.splits)

lemma compositeLayers_store:
  assumes "c \<le> length h"
  shows "length h \<le> length (snd (compositeLayers cvc t c is h))
       \<and> take c (snd (compositeLayers cvc t c is h)) = take c h"
  using assms
proof (induction "is" arbitrary: h)
  case Nil
  then show ?case by simp
next
  case (Cons i rest)
  show ?case
  proof (cases "i \<ge> length (cvc_positions cvc)")
    case True
    then show ?thesis by simp
  next
    case inr: False
    show ?thesis
    proof (cases "(cvc_clips cvc ! i) t")
      case (Inl e)
      then show ?thesis using inr Cons.IH[OF Cons.prems] by simp
    next
      case (Inr fa)
      show ?thesis
      proof (cases "cvc_positions cvc ! i")
        case None
        then show ?thesis using inr Inr by simp
      next
        case (Some pos)
        obtain r h' where at: "applyTransform h fa pos = (r, h')" by (cases "applyTransform h fa pos")
        have st1: "length h \<le> length h'" and st2: "take (length h) h' = h"
          using applyTransform_store[OF at] by blast+
        have "take c (take (length h) h') = take c h'"
          using Cons.prems by (simp add: min_def)
        then have tk: "take c h' = take c h" by (simp only: st2)
        show ?thesis
        proof (cases r)
          case (Inl e)
          then show ?thesis using inr Inr Some at st1 tk by simp
        next
          case tr: (Inr ta)
          let ?h2 = "compositeFrame h' c ta pos (cvc_mode cvc)"
          have l2: "length ?h2 = length h'" by (rule length_compositeFrame)
          have t2: "take c ?h2 = take c h'" by (rule take_compositeFrame) simp
          have "c \<le> length ?h2" using l2 st1 Cons.prems by simp
          from Cons.IH[OF this]
          have ih: "length ?h2 \<le> length (snd (compositeLayers cvc t c rest ?h2))"
              "take c (snd (compositeLayers cvc t c rest ?h2)) = take c ?h2" by blast+
          have eq: "compositeLayers cvc t c (i # rest) h = compositeLayers cvc t c rest ?h2"
            using inr Inr Some at tr by simp
          show ?thesis
            unfolding eq using ih l2 t2 tk st1 by simp
        qed
      qed
    qed
  qed
qed

lemma GetFrame_store:
  "take (length h) (snd (CompositeVideoClip_GetFrame cvc t h)) = h"
proof -
  have "take (length h) x2b = h"
    if "compositeLayers cvc t (length h) is (h @ [c]) = (r, x2b)" for "is" c r x2b
    using compositeLayers_store[of "length h" "h @ [c]" cvc t "is"] that by simp
  then show ?thesis
    by (auto simp: CompositeVideoClip_GetFrame_def Let_def split: sum.splits prod.splits option.splits)
qed

lemma GetFrame_canvas_is_new:
  "fst (CompositeVideoClip_GetFrame cvc t h) = Inr c \<Longrightarrow> c = length h"
  by (auto simp: CompositeVideoClip_GetFrame_def Let_def split: sum.splits prod.splits option.splits if_splits)

lemma GetFrame_canvas_valid:
  assumes "fst (CompositeVideoClip_GetFrame cvc t h) = Inr c"
  shows "c < length (snd (CompositeVideoClip_GetFrame cvc t h))"
proof -
  have "length h < length x2b"
    if "compositeLayers cvc t (length h) is (h @ [k]) = (r, x2b)" for "is" k r x2b
    using compositeLayers_store[of "length h" "h @ [k]" cvc t "is"] that by simp
  then show ?thesis using assms
    by (auto simp: CompositeVideoClip_GetFrame_def Let_def split: sum.splits prod.splits option.splits if_splits)
qed

lemma GetFrame_single_layer:
  assumes "\<not> cvc_closed cvc" and "cvc_clips cvc = [clip]" and "clip t = Inr a"
    and "a < length h" and "0 \<le> mul3NonNeg 4 (Dx (Bounds (h ! a))) (Dy (Bounds (h ! a)))"
  shows "\<exists>canvas. CompositeVideoClip_GetFrame cvc t h = (Inr (length h), h @ [canvas])
           \<and> Bounds canvas = Bounds (h ! a) \<and> (\<forall>x y. At canvas x y = At (h ! a) x y)"
proof -
  let ?fresh = "\<lparr>Pix = (\<lambda>x y. (0, 0, 0, 0)), Bounds = Bounds (h ! a)\<rparr>"
  let ?canvas = "for_range (Y (Rect_Min (Bounds (h ! a)))) (Y (Rect_Max (Bounds (h ! a)))) (\<lambda>y.
              for_range (X (Rect_Min (Bounds (h ! a)))) (X (Rect_Max (Bounds (h ! a)))) (\<lambda>x c.
                Set_px c x y (At (h ! a) x y))) ?fresh"
  have n: "NewRGBA (Bounds (h ! a)) = Inr ?fresh"
    using assms(5) by (simp add: NewRGBA_def)
  have g: "CompositeVideoClip_GetFrame cvc t h = (Inr (length h), h @ [?canvas])"
    using assms(1-4) n by (simp add: CompositeVideoClip_GetFrame_def Let_def)
  have b: "Bounds ?canvas = Bounds (h ! a)"
    by (simp add: Bounds_for_range_grid)
  have p: "At ?canvas x y = At (h ! a) x y" for x y
    by (rule At_copy) simp
  show ?thesis using g b p by blast
qed


text \<open>
  \<^bold>\<open>C8.\<close> A composite with exactly one layer returns a frame with the bounds of that layer's
  frame and the same colour at every point (and the layer's error, wrapped, when the layer
  fails); the layer's frame is an image of the store whose size \<^verbatim>\<open>image.NewRGBA\<close> accepts, as
  every image made by it is. For a composite of any number of layers, the canvas \<^verbatim>\<open>GetFrame\<close> returns is an image
  allocated by the call, at an address no image had before, and every image that was in the
  store before the call, the frame of layer 0 and the frames of the other layers among them,
  is unchanged after it: blending writes to the canvas only.
\<close>

theorem composite_single_layer_identity_and_fresh_canvas:
  "take (length h) (snd (CompositeVideoClip_GetFrame cvc t h)) = h
   \<and> (\<forall>c. fst (CompositeVideoClip_GetFrame cvc t h) = Inr c \<longrightarrow>
          c = length h \<and> c < length (snd (CompositeVideoClip_GetFrame cvc t h)))
   \<and> (\<not> cvc_closed cvc \<and> cvc_clips cvc = [clip] \<and> clip t = Inr a \<and> a < length h
        \<and> 0 \<le> mul3NonNeg 4 (Dx (Bounds (h ! a))) (Dy (Bounds (h ! a))) \<longrightarrow>
        (\<exists>canvas. CompositeVideoClip_GetFrame cvc t h = (Inr (length h), h @ [canvas])
           \<and> Bounds canvas = Bounds (h ! a) \<and> (\<forall>x y. At canvas x y = At (h ! a) x y)))
   \<and> (\<not> cvc_closed cvc \<and> cvc_clips cvc = [clip] \<and> clip t = Inl e \<longrightarrow>
        CompositeVideoClip_GetFrame cvc t h = (Inl (GetBaseFrameFailed e), h))"
proof (intro conjI allI impI)
  show "take (length h) (snd (CompositeVideoClip_GetFrame cvc t h)) = h"
    by (rule GetFrame_store)
next
  fix c assume "fst (CompositeVideoClip_GetFrame cvc t h) = Inr c"
  then show "c = length h" by (rule GetFrame_canvas_is_new)
next
  fix c assume "fst (CompositeVideoClip_GetFrame cvc t h) = Inr c"
  then show "c < length (snd (CompositeVideoClip_GetFrame cvc t h))" by (rule GetFrame_canvas_valid)
next
  assume "\<not> cvc_closed cvc \<and> cvc_clips cvc = [clip] \<and> clip t = Inr a \<and> a < length h
        \<and> 0 \<le> mul3NonNeg 4 (Dx (Bounds (h ! a))) (Dy (Bounds (h ! a)))"
  then show "\<exists>canvas. CompositeVideoClip_GetFrame cvc t h = (Inr (length h), h @ [canvas])
           \<and> Bounds canvas = Bounds (h ! a) \<and> (\<forall>x y. At canvas x y = At (h ! a) x y)"
    using GetFrame_single_layer[of cvc clip t a h] by blast
next
  assume "\<not> cvc_closed cvc \<and> cvc_clips cvc = [clip] \<and> clip t = Inl e"
  then show "CompositeVideoClip_GetFrame cvc t h = (Inl (GetBaseFrameFailed e), h)"
    by (simp add: CompositeVideoClip_GetFrame_def)
qed

theorem composite_single_layer_identity_and_fresh_canvas_witness:
  "take 1 (snd (CompositeVideoClip_GetFrame
        \<lparr>cvc_clips = [\<lambda>t. Inr 0], cvc_positions = [], cvc_mode = Overlay, cvc_closed = False\<rparr> 0
        [\<lparr>Pix = (\<lambda>x y. (word_of_int x, word_of_int y, 9, 255)), Bounds = Rect 0 0 2 2\<rparr>]))
     = [\<lparr>Pix = (\<lambda>x y. (word_of_int x, word_of_int y, 9, 255)), Bounds = Rect 0 0 2 2\<rparr>]
   \<and> (\<exists>canvas. CompositeVideoClip_GetFrame
        \<lparr>cvc_clips = [\<lambda>t. Inr 0], cvc_positions = [], cvc_mode = Overlay, cvc_closed = False\<rparr> 0
        [\<lparr>Pix = (\<lambda>x y. (word_of_int x, word_of_int y, 9, 255)), Bounds = Rect 0 0 2 2\<rparr>]
        = (Inr 1, [\<lparr>Pix = (\<lambda>x y. (word_of_int x, word_of_int y, 9, 255)), Bounds = Rect 0 0 2 2\<rparr>, canvas])
      \<and> Bounds canvas = Rect 0 0 2 2 \<and> At canvas 1 1 = RGBA 1 1 9 255 \<and> At canvas 2 2 = RGBA 0 0 0 0)
   \<and> CompositeVideoClip_GetFrame
        \<lparr>cvc_clips = [\<lambda>t. Inl ClipClosed], cvc_positions = [], cvc_mode = Overlay,
         cvc_closed = False\<rparr> 0
        [\<lparr>Pix = (\<lambda>x y. (word_of_int x, word_of_int y, 9, 255)), Bounds = Rect 0 0 2 2\<rparr>]
      = (Inl (GetBaseFrameFailed ClipClosed),
         [\<lparr>Pix = (\<lambda>x y. (word_of_int x, word_of_int y, 9, 255)), Bounds = Rect 0 0 2 2\<rparr>])"
proof -
  let ?img = "\<lparr>Pix = (\<lambda>x y. (word_of_int x, word_of_int y, 9, 255)), Bounds = Rect 0 0 2 2\<rparr>"
  let ?cvc = "\<lparr>cvc_clips = [\<lambda>t. Inr (0::nat)], cvc_positions = [], cvc_mode = Overlay, cvc_closed = False\<rparr>"
  have r: "Rect 0 0 2 2 = \<lparr>Rect_Min = \<lparr>X = 0, Y = 0\<rparr>, Rect_Max = \<lparr>X = 2, Y = 2\<rparr>\<rparr>"
    by (simp add: Rect_def)
  have m: "0 \<le> mul3NonNeg 4 (Dx (Bounds ([?img] ! 0))) (Dy (Bounds ([?img] ! 0)))"
    by (simp add: r Dx_def Dy_def wrap64_def mul3NonNeg_def)
  have hy: "\<not> cvc_closed ?cvc \<and> cvc_clips ?cvc = [\<lambda>t. Inr 0] \<and> (\<lambda>t::int. Inr 0 :: error + nat) 0 = Inr 0
      \<and> 0 < length [?img]
      \<and> 0 \<le> mul3NonNeg 4 (Dx (Bounds ([?img] ! 0))) (Dy (Bounds ([?img] ! 0)))"
    using m by simp
  have a: "At ?img 1 1 = RGBA 1 1 9 255" "At ?img 2 2 = RGBA 0 0 0 0"
    by (simp_all add: At_def Point_In_def r)
  note th = composite_single_layer_identity_and_fresh_canvas
      [of "[?img]" ?cvc 0 "\<lambda>t. Inr 0" 0 Panic]
  from th have t1: "take (length [?img]) (snd (CompositeVideoClip_GetFrame ?cvc 0 [?img])) = [?img]"
    by (rule conjunct1)
  from th hy obtain canvas where
    c: "CompositeVideoClip_GetFrame ?cvc 0 [?img] = (Inr (length [?img]), [?img] @ [canvas])"
      "Bounds canvas = Bounds ([?img] ! 0)" "\<forall>x y. At canvas x y = At ([?img] ! 0) x y"
    by blast
  have "CompositeVideoClip_GetFrame ?cvc 0 [?img] = (Inr 1, [?img, canvas])
      \<and> Bounds canvas = Rect 0 0 2 2 \<and> At canvas 1 1 = RGBA 1 1 9 255 \<and> At canvas 2 2 = RGBA 0 0 0 0"
    using c a by simp
  then have ex: "\<exists>canvas. CompositeVideoClip_GetFrame ?cvc 0 [?img] = (Inr 1, [?img, canvas])
      \<and> Bounds canvas = Rect 0 0 2 2 \<and> At canvas 1 1 = RGBA 1 1 9 255 \<and> At canvas 2 2 = RGBA 0 0 0 0"
    by blast
  let ?bad = "\<lparr>cvc_clips = [\<lambda>t::int. Inl ClipClosed :: error + nat], cvc_positions = [],
      cvc_mode = Overlay, cvc_closed = False\<rparr>"
  have hb: "\<not> cvc_closed ?bad \<and> cvc_clips ?bad = [\<lambda>t. Inl ClipClosed]
      \<and> (\<lambda>t::int. Inl ClipClosed :: error + nat) 0 = Inl ClipClosed"
    by simp
  from composite_single_layer_identity_and_fresh_canvas
      [of "[?img]" ?bad 0 "\<lambda>t. Inl ClipClosed" 0 ClipClosed] hb
  have bad: "CompositeVideoClip_GetFrame ?bad 0 [?img] = (Inl (GetBaseFrameFailed ClipClosed), [?img])"
    by blast
  have t1': "take 1 (snd (CompositeVideoClip_GetFrame ?cvc 0 [?img])) = [?img]"
    using t1 by simp
  show ?thesis using t1' ex bad by (intro conjI)
qed

subsection \<open>The encoder rejects a frame of the wrong size\<close>

text \<open>
  \<^bold>\<open>C5.\<close> For every frame whose width or height differs from the width or height the
  writer declares, \<^verbatim>\<open>WriteFrame\<close> returns an error and leaves the writer as it was: in
  particular no byte is written into the input pipe of the transcoder. On a writer that is
  open and not closed the error is the frame-size mismatch, with the expected and the actual
  size (a closed or unopened writer reports that instead).
\<close>

theorem WriteFrame_dimension_mismatch:
  assumes "Dx (Bounds frame) \<noteq> vw_width vw \<or> Dy (Bounds frame) \<noteq> vw_height vw"
  shows "fst (VideoWriter_WriteFrame vw frame wr late) \<noteq> None
       \<and> snd (VideoWriter_WriteFrame vw frame wr late) = vw
       \<and> vw_stdin (snd (VideoWriter_WriteFrame vw frame wr late)) = vw_stdin vw
       \<and> (\<not> vw_closed vw \<and> vw_process vw \<noteq> None \<longrightarrow>
            fst (VideoWriter_WriteFrame vw frame wr late)
              = Some (FrameSizeMismatch (vw_width vw) (vw_height vw)
                        (Dx (Bounds frame)) (Dy (Bounds frame))))"
  using assms
  by (auto simp: VideoWriter_WriteFrame_def Let_def split: option.splits)

theorem WriteFrame_dimension_mismatch_witness:
  "Dx (Bounds \<lparr>Pix = (\<lambda>x y. (1, 2, 3, 255)), Bounds = Rect 0 0 3 2\<rparr>) \<noteq> 2
   \<and> VideoWriter_WriteFrame
        \<lparr>vw_width = 2, vw_height = 2, vw_closed = False,
         vw_process = Some \<lparr>mp_pid = 7, mp_cancelled = False, mp_done = None\<rparr>,
         vw_stdin = [9, 9, 9]\<rparr>
        \<lparr>Pix = (\<lambda>x y. (1, 2, 3, 255)), Bounds = Rect 0 0 3 2\<rparr> WriteOK None
      = (Some (FrameSizeMismatch 2 2 3 2),
         \<lparr>vw_width = 2, vw_height = 2, vw_closed = False,
          vw_process = Some \<lparr>mp_pid = 7, mp_cancelled = False, mp_done = None\<rparr>,
          vw_stdin = [9, 9, 9]\<rparr>)"
proof -
  let ?f = "\<lparr>Pix = (\<lambda>x y. (1, 2, 3, 255) :: pixel), Bounds = Rect 0 0 3 2\<rparr>"
  let ?vw = "\<lparr>vw_width = 2, vw_height = 2, vw_closed = False,
         vw_process = Some \<lparr>mp_pid = 7, mp_cancelled = False, mp_done = None\<rparr>,
         vw_stdin = [9, 9, 9]\<rparr>"
  have d: "Dx (Rect 0 0 3 2) = 3" "Dy (Rect 0 0 3 2) = 2"
    by (simp_all add: Dx_def Dy_def Rect_def wrap64_def)
  then have h: "Dx (Bounds ?f) \<noteq> vw_width ?vw \<or> Dy (Bounds ?f) \<noteq> vw_height ?vw" by simp
  from WriteFrame_dimension_mismatch [OF h, of WriteOK None]
  have "snd (VideoWriter_WriteFrame ?vw ?f WriteOK None) = ?vw"
    and "fst (VideoWriter_WriteFrame ?vw ?f WriteOK None) = Some (FrameSizeMismatch 2 2 3 2)"
    by (simp_all add: d)
  then have "VideoWriter_WriteFrame ?vw ?f WriteOK None = (Some (FrameSizeMismatch 2 2 3 2), ?vw)"
    by (metis prod.collapse)
  then show ?thesis using d by simp
qed

subsection \<open>The decoder: time check and exact read\<close>

lemma Seconds_eq: "Seconds d = of_int d / 1000000000"
proof -
  have "d = (d sdiv 1000000000) * 1000000000 + d smod 1000000000"
    by (simp only: sdiv_mult_smod_eq)
  then have "(of_int d :: rat) = of_int ((d sdiv 1000000000) * 1000000000 + d smod 1000000000)"
    by simp
  then show ?thesis by (simp add: Seconds_def field_simps)
qed






lemma GetFrame_Inr_cases:
  assumes "VideoReader_GetFrame vr t run = (Inr img, ev)" and "vr_info vr = Some info"
  shows "0 \<le> wrap64 (Width info * Height info * 3)"
    and "nat (wrap64 (Width info * Height info * 3)) \<le> length (stdout run)"
    and "ev = [Started (Seconds t) (vr_filename vr),
               ReadBytes (nat (wrap64 (Width info * Height info * 3))), Waited]"
    and "\<not> wait_fails run"
    and "\<exists>img0. NewRGBA (Rect 0 0 (Width info) (Height info)) = Inr img0 \<and>
           img = for_range 0 (Height info) (\<lambda>y.
                   for_range 0 (Width info) (\<lambda>x img.
                     Set_px img x y
                       (decodePixel (take (nat (wrap64 (Width info * Height info * 3))) (stdout run))
                          (Width info) x y))) img0"
  using assms
  by (auto simp: VideoReader_GetFrame_def Let_def ReadFull_def split: if_splits sum.splits)

lemma At_decoded:
  assumes "0 \<le> x" "x < W" "0 \<le> y" "y < H" and "Bounds img0 = Rect 0 0 W H"
  shows "At (for_range 0 H (\<lambda>y. for_range 0 W (\<lambda>x img.
               Set_px img x y (decodePixel pd W x y))) img0) x y = decodePixel pd W x y"
proof -
  have p: "Point_In x y (Rect 0 0 W H)"
    using assms(1-4) by (simp add: Point_In_def Rect_def)
  show ?thesis
    using p assms by (simp add: At_def Bounds_for_range_grid Pix_for_range_grid decodePixel_def Let_def)
qed


text \<open>
  \<^bold>\<open>C4.\<close> Whenever \<^verbatim>\<open>GetFrame\<close> returns a frame, it has taken exactly
  \<open>Width * Height * 3\<close> bytes from the output of the transcoder (the stream held at least that
  many), the frame has the declared bounds and each of its pixels is made of the three bytes
  at the pixel's place among those first bytes, with alpha 255. Whenever the stream ends
  before that count, \<^verbatim>\<open>GetFrame\<close> returns an error and no frame: on an open reader with the
  time in range and the process started it is the read error (end of file when nothing came,
  unexpected end of file otherwise) and the process is killed.
\<close>

theorem GetFrame_reads_exactly_one_frame:
  assumes "vr_info vr = Some info"
  shows "(\<forall>img ev. VideoReader_GetFrame vr t run = (Inr img, ev) \<longrightarrow>
            0 \<le> wrap64 (Width info * Height info * 3)
          \<and> nat (wrap64 (Width info * Height info * 3)) \<le> length (stdout run)
          \<and> ev = [Started (Seconds t) (vr_filename vr),
                   ReadBytes (nat (wrap64 (Width info * Height info * 3))), Waited]
          \<and> Bounds img = Rect 0 0 (Width info) (Height info)
          \<and> (\<forall>x y. 0 \<le> x \<and> x < Width info \<and> 0 \<le> y \<and> y < Height info \<longrightarrow>
                At img x y
                  = decodePixel (take (nat (wrap64 (Width info * Height info * 3))) (stdout run))
                      (Width info) x y))
       \<and> (in_int64 (Width info * Height info * 3) \<longrightarrow>
            wrap64 (Width info * Height info * 3) = Width info * Height info * 3)
       \<and> (int (length (stdout run)) < wrap64 (Width info * Height info * 3) \<longrightarrow>
            (\<exists>e. fst (VideoReader_GetFrame vr t run) = Inl e))
       \<and> (\<not> vr_closed vr \<and> Seconds t \<le> Duration info \<and> \<not> pipe_fails run \<and> \<not> start_fails run
            \<and> int (length (stdout run)) < wrap64 (Width info * Height info * 3) \<longrightarrow>
            VideoReader_GetFrame vr t run
              = (Inl (ReadPixelDataFailed (if stdout run = [] then EOF else ErrUnexpectedEOF)),
                 [Started (Seconds t) (vr_filename vr), ReadBytes (length (stdout run)), Killed]))"
proof (intro conjI allI impI)
  fix img ev assume g: "VideoReader_GetFrame vr t run = (Inr img, ev)"
  note c = GetFrame_Inr_cases[OF g assms]
  show "0 \<le> wrap64 (Width info * Height info * 3)" by (rule c(1))
  show "nat (wrap64 (Width info * Height info * 3)) \<le> length (stdout run)" by (rule c(2))
  show "ev = [Started (Seconds t) (vr_filename vr),
                   ReadBytes (nat (wrap64 (Width info * Height info * 3))), Waited]" by (rule c(3))
  from c(5) obtain img0 where n: "NewRGBA (Rect 0 0 (Width info) (Height info)) = Inr img0"
    and i: "img = for_range 0 (Height info) (\<lambda>y.
                   for_range 0 (Width info) (\<lambda>x img.
                     Set_px img x y
                       (decodePixel (take (nat (wrap64 (Width info * Height info * 3))) (stdout run))
                          (Width info) x y))) img0" by blast
  have b0: "Bounds img0 = Rect 0 0 (Width info) (Height info)"
    using n by (auto simp: NewRGBA_def split: if_splits)
  show "Bounds img = Rect 0 0 (Width info) (Height info)"
    unfolding i by (simp add: Bounds_for_range_grid b0)
  fix x y assume "0 \<le> x \<and> x < Width info \<and> 0 \<le> y \<and> y < Height info"
  then show "At img x y
      = decodePixel (take (nat (wrap64 (Width info * Height info * 3))) (stdout run)) (Width info) x y"
    unfolding i using b0 by (intro At_decoded) auto
next
  assume "in_int64 (Width info * Height info * 3)"
  then show "wrap64 (Width info * Height info * 3) = Width info * Height info * 3"
    by (rule wrap64_id)
next
  assume "int (length (stdout run)) < wrap64 (Width info * Height info * 3)"
  then show "\<exists>e. fst (VideoReader_GetFrame vr t run) = Inl e"
    using assms by (auto simp: VideoReader_GetFrame_def Let_def ReadFull_def)
next
  assume "\<not> vr_closed vr \<and> Seconds t \<le> Duration info \<and> \<not> pipe_fails run \<and> \<not> start_fails run
            \<and> int (length (stdout run)) < wrap64 (Width info * Height info * 3)"
  then show "VideoReader_GetFrame vr t run
              = (Inl (ReadPixelDataFailed (if stdout run = [] then EOF else ErrUnexpectedEOF)),
                 [Started (Seconds t) (vr_filename vr), ReadBytes (length (stdout run)), Killed])"
    using assms by (auto simp: VideoReader_GetFrame_def Let_def ReadFull_def)
qed

theorem GetFrame_reads_exactly_one_frame_witness:
  "vr_info \<lparr>vr_filename = ''a.mp4'',
         vr_info = Some \<lparr>Duration = 10, Width = 1, Height = 1, FPS = 30\<rparr>, vr_closed = False\<rparr>
     = Some \<lparr>Duration = 10, Width = 1, Height = 1, FPS = 30\<rparr>
   \<and> VideoReader_GetFrame
        \<lparr>vr_filename = ''a.mp4'',
         vr_info = Some \<lparr>Duration = 10, Width = 1, Height = 1, FPS = 30\<rparr>, vr_closed = False\<rparr>
        0 \<lparr>pipe_fails = False, start_fails = False, stdout = [1, 2], wait_fails = False\<rparr>
      = (Inl (ReadPixelDataFailed ErrUnexpectedEOF), [Started 0 ''a.mp4'', ReadBytes 2, Killed])
   \<and> (\<exists>img. VideoReader_GetFrame
        \<lparr>vr_filename = ''a.mp4'',
         vr_info = Some \<lparr>Duration = 10, Width = 1, Height = 1, FPS = 30\<rparr>, vr_closed = False\<rparr>
        0 \<lparr>pipe_fails = False, start_fails = False, stdout = [1, 2, 3, 4], wait_fails = False\<rparr>
      = (Inr img, [Started 0 ''a.mp4'', ReadBytes 3, Waited])
      \<and> Bounds img = Rect 0 0 1 1 \<and> At img 0 0 = RGBA 1 2 3 255)"
proof -
  let ?info = "\<lparr>Duration = 10, Width = 1, Height = 1, FPS = 30\<rparr>"
  let ?vr = "\<lparr>vr_filename = ''a.mp4'', vr_info = Some ?info, vr_closed = False\<rparr>"
  let ?short = "\<lparr>pipe_fails = False, start_fails = False, stdout = [1, 2], wait_fails = False\<rparr>"
  let ?long = "\<lparr>pipe_fails = False, start_fails = False, stdout = [1, 2, 3, 4], wait_fails = False\<rparr>"
  have h: "vr_info ?vr = Some ?info" by simp
  have s0: "Seconds 0 = 0" by (simp add: Seconds_eq)
  have w3: "wrap64 3 = 3" by (simp add: wrap64_def)
  then have w: "wrap64 (Width ?info * Height ?info * 3) = 3" by simp
  have pre: "\<not> vr_closed ?vr \<and> Seconds 0 \<le> Duration ?info \<and> \<not> pipe_fails ?short
      \<and> \<not> start_fails ?short \<and> int (length (stdout ?short)) < wrap64 (Width ?info * Height ?info * 3)"
    by (simp add: s0 w3)
  from GetFrame_reads_exactly_one_frame [OF h, of 0 ?short] pre
  have a: "VideoReader_GetFrame ?vr 0 ?short
      = (Inl (ReadPixelDataFailed (if stdout ?short = [] then EOF else ErrUnexpectedEOF)),
         [Started (Seconds 0) (vr_filename ?vr), ReadBytes (length (stdout ?short)), Killed])"
    by blast
  have n: "NewRGBA (Rect 0 0 1 1) = Inr \<lparr>Pix = (\<lambda>x y. (0, 0, 0, 0)), Bounds = Rect 0 0 1 1\<rparr>"
    by (simp add: NewRGBA_def Rect_def Dx_def Dy_def wrap64_def mul3NonNeg_def)
  obtain img ev where g: "VideoReader_GetFrame ?vr 0 ?long = (Inr img, ev)"
    by (simp add: VideoReader_GetFrame_def s0 Let_def wrap64_def ReadFull_def n)
  from GetFrame_reads_exactly_one_frame [OF h, of 0 ?long] g
  have b: "ev = [Started (Seconds 0) (vr_filename ?vr),
                 ReadBytes (nat (wrap64 (Width ?info * Height ?info * 3))), Waited]"
    and c: "Bounds img = Rect 0 0 (Width ?info) (Height ?info)"
    and d: "\<forall>x y. 0 \<le> x \<and> x < Width ?info \<and> 0 \<le> y \<and> y < Height ?info \<longrightarrow>
                At img x y
                  = decodePixel (take (nat (wrap64 (Width ?info * Height ?info * 3))) (stdout ?long))
                      (Width ?info) x y"
    by blast+
  from d have "At img 0 0
      = decodePixel (take (nat (wrap64 (Width ?info * Height ?info * 3))) (stdout ?long)) (Width ?info) 0 0"
    by simp
  then have e: "At img 0 0 = RGBA 1 2 3 255" by (simp add: w3 decodePixel_def)
  have "VideoReader_GetFrame ?vr 0 ?long = (Inr img, [Started 0 ''a.mp4'', ReadBytes 3, Waited])
      \<and> Bounds img = Rect 0 0 1 1 \<and> At img 0 0 = RGBA 1 2 3 255"
    using g b c e by (simp add: s0 w3)
  then show ?thesis using a by (auto simp: s0)
qed

subsection \<open>Clips: the time asked of the source\<close>







subsection \<open>The supervisor: shutdown\<close>


















end
